theory Spec2Isabelle
  imports Complex_Main "HOL-Library.Sublist"
begin

section \<open>JavaScript values and strings\<close>

text \<open>
  Values that cross the HTTP boundary are JSON values. A JavaScript expression that may
  evaluate to \<open>undefined\<close> has type \<open>json option\<close>, with \<open>None\<close> for \<open>undefined\<close>.
  An expression that may throw has type \<open>string + 'a\<close>: \<open>Inl m\<close> is an exception whose
  \<open>message\<close> property is \<open>m\<close>; the messages of the errors that the language itself
  throws are written in the wording of the V8 runtime. Numbers inside JSON values are
  carried as integers: the proxy only ever inspects whether a number is zero.
\<close>

datatype json =
    JNull
  | JBool bool
  | JNum int
  | JStr string
  | JArr "json list"
  | JObj "(string \<times> json) list"

text \<open>\<open>String.prototype.includes\<close>: the needle occurs at some position of the string.\<close>

fun str_includes :: "string \<Rightarrow> string \<Rightarrow> bool" where
  "str_includes [] sub = (sub = [])"
| "str_includes (c # cs) sub = (prefix sub (c # cs) \<or> str_includes cs sub)"

text \<open>A text between single quotes, as the runtime's own error messages quote names.\<close>

definition quoted :: "string \<Rightarrow> string" where
  "quoted s = [CHR 0x27] @ s @ [CHR 0x27]"

text \<open>Decimal rendering of a natural number, as a template literal prints it.\<close>

definition digit_char :: "nat \<Rightarrow> char" where
  "digit_char d = ''0123456789'' ! d"

fun show_nat :: "nat \<Rightarrow> string" where
  "show_nat n = (if n < 10 then [digit_char n] else show_nat (n div 10) @ [digit_char (n mod 10)])"

declare show_nat.simps [simp del]

text \<open>
  \<open>Array.prototype.slice(start)\<close> with no end: a negative start counts from the end of
  the array and is clamped at 0, a non-negative start is clamped at the length.
\<close>

definition slice :: "int \<Rightarrow> 'a list \<Rightarrow> 'a list" where
  "slice start xs =
     (let len = int (length xs);
          k = (if start < 0 then max (len + start) 0 else min start len)
      in drop (nat k) xs)"

text \<open>Truthiness of a value, as \<open>!v\<close> tests it.\<close>

fun truthy :: "json option \<Rightarrow> bool" where
  "truthy None = False"
| "truthy (Some JNull) = False"
| "truthy (Some (JBool b)) = b"
| "truthy (Some (JNum n)) = (n \<noteq> 0)"
| "truthy (Some (JStr s)) = (s \<noteq> [])"
| "truthy (Some (JArr xs)) = True"
| "truthy (Some (JObj kvs)) = True"

text \<open>
  Property reads. \<open>get_prop v k\<close> is \<open>v.k\<close> for a value \<open>v\<close> that is neither \<open>null\<close> nor
  \<open>undefined\<close> and a property name \<open>k\<close> that is not an index and not \<open>length\<close>: only
  objects have such properties. \<open>index0 v\<close> is \<open>v[0]\<close>.
\<close>

fun get_prop :: "json \<Rightarrow> string \<Rightarrow> json option" where
  "get_prop (JObj kvs) k = map_of kvs k"
| "get_prop v k = None"

fun index0 :: "json \<Rightarrow> json option" where
  "index0 (JArr xs) = (case xs of [] \<Rightarrow> None | x # _ \<Rightarrow> Some x)"
| "index0 (JStr s) = (case s of [] \<Rightarrow> None | c # _ \<Rightarrow> Some (JStr [c]))"
| "index0 (JObj kvs) = map_of kvs ''0''"
| "index0 v = None"

text \<open>Optional chaining \<open>v?.k\<close>: \<open>undefined\<close> when \<open>v\<close> is \<open>null\<close> or \<open>undefined\<close>.\<close>

fun opt_chain :: "json option \<Rightarrow> string \<Rightarrow> json option" where
  "opt_chain None k = None"
| "opt_chain (Some JNull) k = None"
| "opt_chain (Some v) k = get_prop v k"

section \<open>The chat proxy (supabase/functions/chat/index.ts)\<close>

record request =
  http_method :: string
  json_body :: "string + json"  \<comment> \<open>what \<open>await req.json()\<close> gives: \<open>Inl m\<close> when it rejects\<close>

datatype payload = Text string | Json json

record response =
  status :: nat
  headers :: "(string \<times> string) list"
  body :: payload

text \<open>The body of the upstream call, with the credential of its Authorization header.\<close>

record completion_request =
  bearer :: string
  model :: string
  messages :: "json list"
  max_tokens :: nat
  temperature :: rat
  presence_penalty :: rat
  frequency_penalty :: rat

text \<open>
  What \<open>fetch\<close> gives: it rejects with a message, or resolves to a response with a status
  and a body that \<open>response.json()\<close> parses or rejects.
\<close>

datatype fetch_result = Rejected string | Fetched nat "string + json"

definition corsHeaders :: "(string \<times> string) list" where
  "corsHeaders =
     [(''Access-Control-Allow-Origin'', ''*''),
      (''Access-Control-Allow-Headers'', ''authorization, x-client-info, apikey, content-type'')]"

definition system_content :: string where
  "system_content =
     ''You are Nova, an advanced AI voice assistant. You are helpful, knowledgeable, and conversational. '' @
     [CHR 0x0A, CHR 0x0A] @
     ''Key characteristics:'' @ [CHR 0x0A] @
     ''- Respond naturally and conversationally like a human assistant'' @ [CHR 0x0A] @
     ''- Keep responses concise but informative (ideal for voice)'' @ [CHR 0x0A] @
     ''- Be friendly and engaging'' @ [CHR 0x0A] @
     ''- Help with a wide range of tasks: questions, calculations, explanations, advice, creative tasks'' @ [CHR 0x0A] @
     ''- When asked about time/date, remind users you don'' @ [CHR 0x27] @ ''t have real-time access'' @ [CHR 0x0A] @
     ''- For weather, web searches, or real-time data, explain you'' @ [CHR 0x27] @ ''d need internet access'' @ [CHR 0x0A] @
     ''- Be encouraging and positive'' @ [CHR 0x0A] @
     ''- Adapt your tone to match the user'' @ [CHR 0x27] @ ''s energy'' @ [CHR 0x0A, CHR 0x0A] @
     ''Remember: Your responses will be spoken aloud, so write for speech, not text.''"

definition system_message :: json where
  "system_message = JObj [(''role'', JStr ''system''), (''content'', JStr system_content)]"

text \<open>
  The object \<open>{ role: 'user', content: message }\<close> as \<open>JSON.stringify\<close> sends it: a
  property whose value is \<open>undefined\<close> is left out.
\<close>

definition user_message :: "json option \<Rightarrow> json" where
  "user_message message =
     JObj ((''role'', JStr ''user'') #
           (case message of None \<Rightarrow> [] | Some m \<Rightarrow> [(''content'', m)]))"

text \<open>
  \<open>const { message, conversationHistory = [] } = ...\<close>: destructuring \<open>null\<close> throws,
  any other value yields its two properties, the second defaulting to the empty array
  when it is \<open>undefined\<close>.
\<close>

definition destructure :: "json \<Rightarrow> string + (json option \<times> json)" where
  "destructure parsed =
     (case parsed of
        JNull \<Rightarrow> Inl (''Cannot destructure property '' @ quoted ''message'' @ '' of '' @
                      quoted ''(intermediate value)'' @ '' as it is null.'')
      | _ \<Rightarrow> Inr (get_prop parsed ''message'',
                  (case get_prop parsed ''conversationHistory'' of None \<Rightarrow> JArr [] | Some h \<Rightarrow> h)))"

text \<open>
  \<open>...conversationHistory.slice(-10)\<close>: an array is sliced; a string is sliced too and
  spread into its characters; any other value has no \<open>slice\<close> function.
\<close>

definition spread_slice :: "json \<Rightarrow> string + json list" where
  "spread_slice conversationHistory =
     (case conversationHistory of
        JArr xs \<Rightarrow> Inr (slice (- 10) xs)
      | JStr s \<Rightarrow> Inr (map (\<lambda>c. JStr [c]) (slice (- 10) s))
      | JNull \<Rightarrow> Inl (''Cannot read properties of null (reading '' @ quoted ''slice'' @ '')'')
      | _ \<Rightarrow>
          Inl ''conversationHistory.slice is not a function or its return value is not iterable'')"

definition build_messages :: "json option \<Rightarrow> json \<Rightarrow> string + json list" where
  "build_messages message conversationHistory =
     (case spread_slice conversationHistory of
        Inl e \<Rightarrow> Inl e
      | Inr recent \<Rightarrow> Inr ([system_message] @ recent @ [user_message message]))"

definition completion_body :: "string \<Rightarrow> json list \<Rightarrow> completion_request" where
  "completion_body openaiApiKey msgs =
     \<lparr>bearer = openaiApiKey, model = ''gpt-4o'', messages = msgs, max_tokens = 300,
      temperature = 7 / 10, presence_penalty = 6 / 10, frequency_penalty = 3 / 10\<rparr>"

text \<open>\<open>response.ok\<close>: the status is in the range 200 to 299.\<close>

definition ok :: "nat \<Rightarrow> bool" where
  "ok st = (200 \<le> st \<and> st \<le> 299)"

text \<open>
  \<open>data.choices[0]?.message?.content\<close>: reading \<open>choices\<close> of \<open>null\<close> throws, and so does
  reading index 0 of a \<open>choices\<close> that is \<open>undefined\<close> or \<open>null\<close>; the rest of the chain is
  optional.
\<close>

definition completion_content :: "json \<Rightarrow> string + json option" where
  "completion_content data =
     (case data of
        JNull \<Rightarrow> Inl (''Cannot read properties of null (reading '' @ quoted ''choices'' @ '')'')
      | _ \<Rightarrow>
        (case get_prop data ''choices'' of
           None \<Rightarrow> Inl (''Cannot read properties of undefined (reading '' @ quoted ''0'' @ '')'')
         | Some JNull \<Rightarrow> Inl (''Cannot read properties of null (reading '' @ quoted ''0'' @ '')'')
         | Some choices \<Rightarrow> Inr (opt_chain (opt_chain (index0 choices) ''message'') ''content'')))"

definition missing_key_message :: string where
  "missing_key_message = ''OpenAI API key not configured''"

text \<open>
  The \<open>try\<close> block of the handler up to its call of \<open>fetch\<close>: the request it sends
  upstream, or \<open>Inl\<close> the message of the exception thrown before. \<open>openaiApiKey\<close> is
  what \<open>Deno.env.get\<close> returns.
\<close>

definition upstream_request :: "string option \<Rightarrow> request \<Rightarrow> string + completion_request" where
  "upstream_request openaiApiKey req =
     (case json_body req of
        Inl e \<Rightarrow> Inl e
      | Inr parsed \<Rightarrow>
     (case destructure parsed of
        Inl e \<Rightarrow> Inl e
      | Inr (message, conversationHistory) \<Rightarrow>
     (case openaiApiKey of
        None \<Rightarrow> Inl missing_key_message
      | Some key \<Rightarrow>
     if key = [] then Inl missing_key_message
     else
     (case build_messages message conversationHistory of
        Inl e \<Rightarrow> Inl e
      | Inr msgs \<Rightarrow> Inr (completion_body key msgs)))))"

text \<open>
  The whole \<open>try\<close> block: \<open>Inr\<close> the completion text, or \<open>Inl\<close> the message of the
  first exception thrown. \<open>fetch\<close> is the upstream service.
\<close>

definition try_block ::
  "string option \<Rightarrow> (completion_request \<Rightarrow> fetch_result) \<Rightarrow> request \<Rightarrow> string + json" where
  "try_block openaiApiKey fetch req =
     (case upstream_request openaiApiKey req of
        Inl e \<Rightarrow> Inl e
      | Inr rq \<Rightarrow>
     (case fetch rq of
        Rejected e \<Rightarrow> Inl e
      | Fetched st parsed_body \<Rightarrow>
     if \<not> ok st then Inl (''OpenAI API error: '' @ show_nat st)
     else
     (case parsed_body of
        Inl e \<Rightarrow> Inl e
      | Inr data \<Rightarrow>
     (case completion_content data of
        Inl e \<Rightarrow> Inl e
      | Inr aiResponse \<Rightarrow>
     (case aiResponse of
        None \<Rightarrow> Inl ''No response from AI''
      | Some text \<Rightarrow>
     if \<not> truthy (Some text) then Inl ''No response from AI'' else Inr text)))))"

definition apology :: string where
  "apology = ''I'' @ [CHR 0x27] @ ''m sorry, I'' @ [CHR 0x27] @
     ''m having trouble processing your request right now. Please try again.''"

text \<open>
  A response made from a string with no content type of its own is given the content type
  of plain text.
\<close>

definition text_headers :: "(string \<times> string) list" where
  "text_headers = corsHeaders @ [(''content-type'', ''text/plain;charset=UTF-8'')]"

definition json_headers :: "(string \<times> string) list" where
  "json_headers = corsHeaders @ [(''Content-Type'', ''application/json'')]"

definition success_body :: "json \<Rightarrow> json" where
  "success_body aiResponse = JObj [(''response'', aiResponse), (''success'', JBool True)]"

definition failure_body :: "string \<Rightarrow> json" where
  "failure_body msg =
     JObj [(''error'', JStr msg), (''response'', JStr apology), (''success'', JBool False)]"

definition handler ::
  "string option \<Rightarrow> (completion_request \<Rightarrow> fetch_result) \<Rightarrow> request \<Rightarrow> response" where
  "handler openaiApiKey fetch req =
     (if http_method req = ''OPTIONS''
      then \<lparr>status = 200, headers = text_headers, body = Text ''ok''\<rparr>
      else
        (case try_block openaiApiKey fetch req of
           Inr aiResponse \<Rightarrow>
             \<lparr>status = 200, headers = json_headers, body = Json (success_body aiResponse)\<rparr>
         | Inl msg \<Rightarrow>
             \<lparr>status = 200, headers = json_headers, body = Json (failure_body msg)\<rparr>))"

text \<open>The value of a field of a JSON response body; \<open>None\<close> when the body is not a JSON object.\<close>

fun body_field :: "payload \<Rightarrow> string \<Rightarrow> json option" where
  "body_field (Json (JObj kvs)) k = map_of kvs k"
| "body_field b k = None"

text \<open>
  The upstream failures that the specification names: a status outside 200 to 299, or a
  completion whose content is empty (absent, \<open>null\<close> or the empty string).
\<close>

definition upstream_error :: "fetch_result \<Rightarrow> bool" where
  "upstream_error r =
     (case r of
        Rejected e \<Rightarrow> False
      | Fetched st parsed_body \<Rightarrow>
          \<not> ok st \<or>
          (case parsed_body of
             Inl e \<Rightarrow> False
           | Inr data \<Rightarrow>
               (case completion_content data of Inl e \<Rightarrow> False | Inr c \<Rightarrow> \<not> truthy c)))"

subsection \<open>Sample requests and upstream services\<close>

definition hello_request :: request where
  "hello_request = \<lparr>http_method = ''POST'', json_body = Inr (JObj [(''message'', JStr ''hello'')])\<rparr>"

definition empty_post :: request where
  "empty_post = \<lparr>http_method = ''POST'', json_body = Inl ''Unexpected end of JSON input''\<rparr>"

definition null_post :: request where
  "null_post = \<lparr>http_method = ''POST'', json_body = Inr JNull\<rparr>"

definition preflight :: request where
  "preflight = \<lparr>http_method = ''OPTIONS'', json_body = Inl ''Unexpected end of JSON input''\<rparr>"

definition turn :: "string \<Rightarrow> string \<Rightarrow> json" where
  "turn role content = JObj [(''role'', JStr role), (''content'', JStr content)]"

definition six_exchanges :: "json list" where
  "six_exchanges =
     [turn ''user'' ''q1'', turn ''assistant'' ''a1'', turn ''user'' ''q2'', turn ''assistant'' ''a2'',
      turn ''user'' ''q3'', turn ''assistant'' ''a3'', turn ''user'' ''q4'', turn ''assistant'' ''a4'',
      turn ''user'' ''q5'', turn ''assistant'' ''a5'', turn ''user'' ''q6'', turn ''assistant'' ''a6'']"

definition seventh_question :: request where
  "seventh_question =
     \<lparr>http_method = ''POST'',
      json_body = Inr (JObj [(''message'', JStr ''q7''), (''conversationHistory'', JArr six_exchanges)])\<rparr>"

definition unavailable :: "completion_request \<Rightarrow> fetch_result" where
  "unavailable rq = Fetched 503 (Inl ''Unexpected token'')"

definition no_choice :: "completion_request \<Rightarrow> fetch_result" where
  "no_choice rq = Fetched 200 (Inr (JObj [(''choices'', JArr [])]))"

section \<open>The conversation controller, remote variant (VoiceAssistant with the chat proxy)\<close>

text \<open>
  The component's React state, the two refs, and a log of the calls it makes on the
  platform (recognizer, synthesizer, toasts, the chat function), latest last.
\<close>

record utterance =
  spoken :: string
  rate :: rat
  pitch :: rat
  volume :: rat

datatype effect =
    RecognitionStart
  | RecognitionStop
  | Speak utterance
  | Toast string
  | InvokeChat string

record session =
  isListening :: bool
  isProcessing :: bool
  transcript :: string
  response :: string
  isSupported :: bool
  conversationHistory :: "(string \<times> string) list"  \<comment> \<open>role and content of each turn\<close>
  needsApiKey :: bool
  recognitionRef :: bool  \<comment> \<open>\<open>recognitionRef.current\<close> is set\<close>
  synthRef :: bool  \<comment> \<open>\<open>synthRef.current\<close> is set\<close>
  effects :: "effect list"

text \<open>
  What \<open>supabase.functions.invoke\<close> resolves to: an \<open>error\<close> whose \<open>message\<close> may be
  missing, or the \<open>data\<close> that the proxy sent, with its fields \<open>success\<close>, \<open>error\<close> and
  \<open>response\<close> in this order.
\<close>

datatype invoke_result = InvokeError "string option" | Data bool "string option" string

definition initial :: session where
  "initial =
     \<lparr>isListening = False, isProcessing = False, transcript = [], response = [],
      isSupported = False, conversationHistory = [], needsApiKey = False,
      recognitionRef = False, synthRef = False, effects = []\<rparr>"

definition emit :: "effect \<Rightarrow> session \<Rightarrow> session" where
  "emit e s = s\<lparr>effects := effects s @ [e]\<rparr>"

text \<open>
  The mount effect: with both platform features present the component records the
  support and keeps the recognizer and the synthesizer; otherwise it shows a toast.
\<close>

definition mount :: "bool \<Rightarrow> bool \<Rightarrow> session \<Rightarrow> session" where
  "mount hasSpeechRecognition hasSpeechSynthesis s =
     (if hasSpeechRecognition \<and> hasSpeechSynthesis
      then s\<lparr>isSupported := True, recognitionRef := True, synthRef := True\<rparr>
      else emit (Toast ''Browser Not Supported'') s)"

text \<open>
  \<open>processCommand\<close> up to its \<open>await\<close>: it raises \<open>isProcessing\<close> and calls the chat
  function with the command. The log keeps the command of the call, not the history that
  goes with it.
\<close>

definition processCommand_call :: "string \<Rightarrow> session \<Rightarrow> session" where
  "processCommand_call command s = emit (InvokeChat command) (s\<lparr>isProcessing := True\<rparr>)"

definition speak_response :: "string \<Rightarrow> session \<Rightarrow> session" where
  "speak_response responseText s =
     (if synthRef s
      then emit (Speak \<lparr>spoken = responseText, rate = 9 / 10, pitch = 1, volume = 8 / 10\<rparr>) s
      else s)"

definition speak_error :: "string \<Rightarrow> session \<Rightarrow> session" where
  "speak_error errorResponse s =
     (if synthRef s
      then emit (Speak \<lparr>spoken = errorResponse, rate = 1, pitch = 1, volume = 1\<rparr>) s
      else s)"

definition generic_error_response :: string where
  "generic_error_response =
     ''I'' @ [CHR 0x27] @ ''m sorry, I encountered an error processing your request.''"

definition api_key_error_response :: string where
  "api_key_error_response =
     ''I need an OpenAI API key to provide intelligent responses. Please configure your API key to continue.''"

text \<open>\<open>v?.includes('API key')\<close> on a string that may be \<open>undefined\<close>.\<close>

definition mentions_api_key :: "string option \<Rightarrow> bool" where
  "mentions_api_key v = (case v of None \<Rightarrow> False | Some m \<Rightarrow> str_includes m ''API key'')"

text \<open>
  The \<open>try\<close> block after the \<open>await\<close>: the state it leaves and, when it throws, the
  \<open>message\<close> of what it throws (\<open>Some None\<close> for an error without a message).
\<close>

definition processCommand_try ::
  "string \<Rightarrow> invoke_result \<Rightarrow> session \<Rightarrow> session \<times> string option option" where
  "processCommand_try command r s =
     (case r of
        InvokeError msg \<Rightarrow> (s, Some msg)
      | Data success error responseText \<Rightarrow>
          if \<not> success \<and> mentions_api_key error
          then (s\<lparr>needsApiKey := True\<rparr>, Some (Some ''OpenAI API key not configured''))
          else
            (speak_response responseText
               (s\<lparr>response := responseText,
                  conversationHistory :=
                    conversationHistory s @ [(''user'', command), (''assistant'', responseText)]\<rparr>),
             None))"

definition processCommand_catch :: "string option \<Rightarrow> session \<Rightarrow> session" where
  "processCommand_catch msg s =
     (if mentions_api_key msg
      then speak_error api_key_error_response
             (s\<lparr>needsApiKey := True, response := api_key_error_response\<rparr>)
      else speak_error generic_error_response (s\<lparr>response := generic_error_response\<rparr>))"

text \<open>\<open>processCommand\<close> from the point where the chat function has resolved.\<close>

definition processCommand_resume :: "string \<Rightarrow> invoke_result \<Rightarrow> session \<Rightarrow> session" where
  "processCommand_resume command r s =
     (case processCommand_try command r s of
        (s1, None) \<Rightarrow> s1\<lparr>isProcessing := False\<rparr>
      | (s1, Some msg) \<Rightarrow> (processCommand_catch msg s1)\<lparr>isProcessing := False\<rparr>)"

definition onresult :: "string \<Rightarrow> bool \<Rightarrow> session \<Rightarrow> session" where
  "onresult text isFinal s =
     (if isFinal
      then processCommand_call text (s\<lparr>transcript := text, isListening := False\<rparr>)
      else s\<lparr>transcript := text\<rparr>)"

definition onerror :: "session \<Rightarrow> session" where
  "onerror s = emit (Toast ''Voice Error'') (s\<lparr>isListening := False\<rparr>)"

definition onend :: "session \<Rightarrow> session" where
  "onend s = s\<lparr>isListening := False\<rparr>"

definition toggleListening :: "session \<Rightarrow> session" where
  "toggleListening s =
     (if \<not> isSupported s \<or> \<not> recognitionRef s then emit (Toast ''Not Supported'') s
      else if isListening s then (emit RecognitionStop s)\<lparr>isListening := False\<rparr>
      else (emit RecognitionStart (s\<lparr>transcript := [], response := []\<rparr>))\<lparr>isListening := True\<rparr>)"

text \<open>
  Modelled from the spec: the \<open>Button\<close> component (\<open>@/components/ui/button\<close>) is not among
  the sources. The component renders it, with \<open>onClick={toggleListening}\<close> and
  \<open>disabled={isProcessing}\<close>, only when \<open>isSupported\<close> holds; the specification says that
  the toggle control is disabled while \<open>isProcessing\<close> is true, and a disabled control does
  not call its handler.
\<close>

definition press_button :: "session \<Rightarrow> session" where
  "press_button s =
     (if \<not> isSupported s then s
      else if isProcessing s then s
      else toggleListening s)"

text \<open>
  The events that drive the controller. A reply of the chat function carries the command
  of the call it answers; the model lets a reply arrive at any time, which only adds runs.
\<close>

datatype event =
    Press
  | Result string bool
  | RecognitionFailed
  | RecognitionEnded
  | ChatResolved string invoke_result

fun handle :: "session \<Rightarrow> event \<Rightarrow> session" where
  "handle s Press = press_button s"
| "handle s (Result text isFinal) = onresult text isFinal s"
| "handle s RecognitionFailed = onerror s"
| "handle s RecognitionEnded = onend s"
| "handle s (ChatResolved command r) = processCommand_resume command r s"

text \<open>The state after a run of events, from the mounted component.\<close>

definition run :: "bool \<Rightarrow> bool \<Rightarrow> event list \<Rightarrow> session" where
  "run hasSpeechRecognition hasSpeechSynthesis evs =
     foldl handle (mount hasSpeechRecognition hasSpeechSynthesis initial) evs"

text \<open>
  A reply reports a missing credential when it is an error whose message contains
  \<open>API key\<close>: a failed call with such a message, or an unsuccessful answer of the proxy
  whose \<open>error\<close> field contains it.
\<close>

definition reports_missing_credential :: "invoke_result \<Rightarrow> bool" where
  "reports_missing_credential r =
     (case r of
        InvokeError msg \<Rightarrow> mentions_api_key msg
      | Data success error responseText \<Rightarrow> \<not> success \<and> mentions_api_key error)"

subsection \<open>Sample runs of the controller\<close>

definition listening :: session where
  "listening = run True True [Press]"

definition awaiting_reply :: session where
  "awaiting_reply = run True True [Press, Result ''hello'' True]"

definition missing_key_reply :: invoke_result where
  "missing_key_reply = Data False (Some ''OpenAI API key not configured'') ''sorry''"

definition missing_key_run :: "event list" where
  "missing_key_run = [Press, Result ''hello'' True, ChatResolved ''hello'' missing_key_reply]"

section \<open>JavaScript numbers\<close>

text \<open>
  The numbers of the local engine are doubles. A finite double is carried as the rational
  it denotes, and each operation rounds its exact result to the nearest double. Negative
  zero has no representation of its own: the engine parses runs of digits only, and no sum,
  difference, product or quotient of such operands is negative zero.
\<close>

datatype number = Finite rat | PosInfinity | NegInfinity | NaN

text \<open>\<open>width b n\<close> is the number of digits of a positive integer \<open>n\<close> in base \<open>b\<close>.\<close>

function width :: "int \<Rightarrow> int \<Rightarrow> int" where
  "width b n = (if n \<le> 0 \<or> b \<le> 1 then 0 else 1 + width b (n div b))"
  by pat_completeness auto
termination
  by (relation "measure (\<lambda>(b, n). nat n)") (auto intro: int_div_less_self)

declare width.simps [simp del]

text \<open>The decimal digits of a non-negative integer.\<close>

function show_digits :: "int \<Rightarrow> string" where
  "show_digits n =
     (if n < 10 then [digit_char (nat n)]
      else show_digits (n div 10) @ [digit_char (nat (n mod 10))])"
  by pat_completeness auto
termination
  by (relation "measure nat") auto

declare show_digits.simps [simp del]

text \<open>Powers with an integer exponent.\<close>

definition pow :: "rat \<Rightarrow> int \<Rightarrow> rat" where
  "pow b e = (if 0 \<le> e then b ^ nat e else 1 / b ^ nat (- e))"

text \<open>
  For a positive rational \<open>q\<close>, \<open>floor_log b q\<close> is the exponent \<open>g\<close> with
  \<open>b ^ g \<le> q < b ^ (g + 1)\<close>, found from the digit counts of numerator and denominator.
\<close>

definition floor_log :: "int \<Rightarrow> rat \<Rightarrow> int" where
  "floor_log b q =
     (let (p, d) = quotient_of q;
          g = width b p - width b d
      in if pow (of_int b) g \<le> q then g else g - 1)"

text \<open>Rounding to the nearest integer, ties to the even one.\<close>

definition round_half_even :: "rat \<Rightarrow> int" where
  "round_half_even m =
     (let f = \<lfloor>m\<rfloor>; r = m - of_int f
      in if r < 1 / 2 then f else if 1 / 2 < r then f + 1 else if even f then f else f + 1)"

text \<open>
  The double nearest to a rational: 53 significant bits, the exponent not below that of
  the subnormal numbers, ties to even, and infinity when the rounded value reaches
  \<open>2 ^ 1024\<close>, that is, when its binary exponent reaches 1024.
\<close>

definition round_double :: "rat \<Rightarrow> number" where
  "round_double q =
     (if q = 0 then Finite 0
      else
        let a = \<bar>q\<bar>;
            e = max (floor_log 2 a) (- 1022);
            ulp = pow 2 (e - 52);
            r = of_int (round_half_even (a / ulp)) * ulp
        in if 1024 \<le> floor_log 2 r then (if q < 0 then NegInfinity else PosInfinity)
           else Finite (if q < 0 then - r else r))"

text \<open>
  \<open>parseInt\<close> on a run of decimal digits: the integer the digits denote, rounded to a
  double. (The language lets an implementation neglect the digits after the twentieth;
  the model rounds the exact integer.)
\<close>

definition is_digit :: "char \<Rightarrow> bool" where
  "is_digit c = (c \<in> set ''0123456789'')"

definition digit_value :: "char \<Rightarrow> int" where
  "digit_value c = int (length (takeWhile (\<lambda>d. d \<noteq> c) ''0123456789''))"

definition decimal :: "string \<Rightarrow> int" where
  "decimal ds = foldl (\<lambda>n c. 10 * n + digit_value c) 0 ds"

definition parseInt :: "string \<Rightarrow> number" where
  "parseInt ds = round_double (of_int (decimal ds))"

text \<open>
  The arithmetic operators \<open>+\<close>, \<open>-\<close>, \<open>*\<close> and \<open>/\<close> on numbers. A zero is the positive
  zero: a finite number divided by it is an infinity of the sign of the dividend, and zero
  divided by zero is \<open>NaN\<close>.
\<close>

fun negate :: "number \<Rightarrow> number" where
  "negate (Finite x) = Finite (- x)"
| "negate PosInfinity = NegInfinity"
| "negate NegInfinity = PosInfinity"
| "negate NaN = NaN"

fun num_add :: "number \<Rightarrow> number \<Rightarrow> number" where
  "num_add NaN y = NaN"
| "num_add x NaN = NaN"
| "num_add (Finite x) (Finite y) = round_double (x + y)"
| "num_add PosInfinity NegInfinity = NaN"
| "num_add NegInfinity PosInfinity = NaN"
| "num_add (Finite x) y = y"
| "num_add x y = x"

definition num_sub :: "number \<Rightarrow> number \<Rightarrow> number" where
  "num_sub x y = num_add x (negate y)"

fun num_sign :: "number \<Rightarrow> int" where
  "num_sign (Finite x) = (if x < 0 then - 1 else if x = 0 then 0 else 1)"
| "num_sign PosInfinity = 1"
| "num_sign NegInfinity = - 1"
| "num_sign NaN = 0"

fun num_mul :: "number \<Rightarrow> number \<Rightarrow> number" where
  "num_mul NaN y = NaN"
| "num_mul x NaN = NaN"
| "num_mul (Finite x) (Finite y) = round_double (x * y)"
| "num_mul x y =
     (if num_sign x * num_sign y = 0 then NaN
      else if 0 < num_sign x * num_sign y then PosInfinity else NegInfinity)"

fun num_div :: "number \<Rightarrow> number \<Rightarrow> number" where
  "num_div NaN y = NaN"
| "num_div x NaN = NaN"
| "num_div (Finite x) (Finite y) =
     (if y = 0 then (if x = 0 then NaN else if 0 < x then PosInfinity else NegInfinity)
      else round_double (x / y))"
| "num_div (Finite x) y = Finite 0"
| "num_div x (Finite y) = (if (y < 0) = (x = PosInfinity) then NegInfinity else PosInfinity)"
| "num_div x y = NaN"

text \<open>
  Conversion of a number to a string, as a template literal does it. For a positive
  finite \<open>x\<close> the language takes the least number \<open>k\<close> of digits for which digits \<open>s\<close>
  and an exponent \<open>n\<close> exist such that \<open>s * 10 ^ (n - k)\<close> rounds to \<open>x\<close>, among several
  such \<open>s\<close> the one closest to \<open>x\<close>, and prints plain digits when \<open>0 < n \<le> 21\<close>, leading
  zeros when \<open>- 6 < n \<le> 0\<close>, and exponent notation otherwise. Seventeen digits always
  suffice.
\<close>

definition digits_valid :: "rat \<Rightarrow> int \<Rightarrow> nat \<Rightarrow> int \<Rightarrow> bool" where
  "digits_valid x n k s =
     (10 ^ (k - 1) \<le> s \<and> s < 10 ^ k \<and> round_double (of_int s * pow 10 (n - int k)) = Finite x)"

definition candidates :: "rat \<Rightarrow> int \<Rightarrow> nat \<Rightarrow> (int \<times> int) list" where
  "candidates x n0 k =
     filter (\<lambda>(n, s). digits_valid x n k s)
       (concat (map (\<lambda>n. let f = \<lfloor>x / pow 10 (n - int k)\<rfloor> in [(n, f), (n, f + 1)]) [n0, n0 + 1]))"

definition distance :: "rat \<Rightarrow> nat \<Rightarrow> int \<times> int \<Rightarrow> rat" where
  "distance x k c = \<bar>of_int (snd c) * pow 10 (fst c - int k) - x\<bar>"

fun closest :: "rat \<Rightarrow> nat \<Rightarrow> int \<times> int \<Rightarrow> (int \<times> int) list \<Rightarrow> int \<times> int" where
  "closest x k best [] = best"
| "closest x k best (c # cs) =
     closest x k
       (if distance x k c < distance x k best \<or>
           (distance x k c = distance x k best \<and> even (snd c) \<and> odd (snd best))
        then c else best) cs"

function shortest_from :: "rat \<Rightarrow> int \<Rightarrow> nat \<Rightarrow> int \<times> nat \<times> int" where
  "shortest_from x n0 k =
     (case candidates x n0 k of
        c # cs \<Rightarrow> (let (n, s) = closest x k c cs in (n, k, s))
      | [] \<Rightarrow>
          if 17 \<le> k then (n0, k, \<lfloor>x / pow 10 (n0 - int k)\<rfloor>)
          else shortest_from x n0 (Suc k))"
  by pat_completeness auto
termination
  by (relation "measure (\<lambda>(x, n0, k). 17 - k)") auto

declare shortest_from.simps [simp del]

definition shortest :: "rat \<Rightarrow> int \<times> nat \<times> int" where
  "shortest x = shortest_from x (floor_log 10 x + 1) 1"

definition exponent_part :: "int \<Rightarrow> string" where
  "exponent_part e = ''e'' @ (if e < 0 then ''-'' else ''+'') @ show_digits \<bar>e\<bar>"

definition positive_toString :: "rat \<Rightarrow> string" where
  "positive_toString x =
     (let (n, k, s) = shortest x; ds = show_digits s
      in if int k \<le> n \<and> n \<le> 21 then ds @ replicate (nat (n - int k)) CHR ''0''
         else if 0 < n \<and> n \<le> 21 then take (nat n) ds @ ''.'' @ drop (nat n) ds
         else if - 6 < n \<and> n \<le> 0 then ''0.'' @ replicate (nat (- n)) CHR ''0'' @ ds
         else if k = 1 then ds @ exponent_part (n - 1)
         else take 1 ds @ ''.'' @ drop 1 ds @ exponent_part (n - 1))"

fun number_toString :: "number \<Rightarrow> string" where
  "number_toString NaN = ''NaN''"
| "number_toString PosInfinity = ''Infinity''"
| "number_toString NegInfinity = ''-Infinity''"
| "number_toString (Finite x) =
     (if x = 0 then ''0'' else if x < 0 then ''-'' @ positive_toString (- x) else positive_toString x)"

section \<open>The local response engine (src/components/VoiceAssistant.tsx)\<close>

text \<open>
  \<open>String.prototype.toLowerCase\<close>. A character of a string is a code unit below 256;
  among these the capital letters are A to Z and the code units C0 to DE except D7 (the
  multiplication sign), and each has its small letter 32 places further on. Every other
  character is left as it is.
\<close>

definition lower_char :: "char \<Rightarrow> char" where
  "lower_char c =
     (case map_of
             (zip (''ABCDEFGHIJKLMNOPQRSTUVWXYZ'' @
              [CHR 0xC0, CHR 0xC1, CHR 0xC2, CHR 0xC3, CHR 0xC4, CHR 0xC5, CHR 0xC6,
              CHR 0xC7, CHR 0xC8, CHR 0xC9, CHR 0xCA, CHR 0xCB, CHR 0xCC, CHR 0xCD,
              CHR 0xCE, CHR 0xCF, CHR 0xD0, CHR 0xD1, CHR 0xD2, CHR 0xD3, CHR 0xD4,
              CHR 0xD5, CHR 0xD6, CHR 0xD8, CHR 0xD9, CHR 0xDA, CHR 0xDB, CHR 0xDC,
              CHR 0xDD, CHR 0xDE])
                  (''abcdefghijklmnopqrstuvwxyz'' @
              [CHR 0xE0, CHR 0xE1, CHR 0xE2, CHR 0xE3, CHR 0xE4, CHR 0xE5, CHR 0xE6,
              CHR 0xE7, CHR 0xE8, CHR 0xE9, CHR 0xEA, CHR 0xEB, CHR 0xEC, CHR 0xED,
              CHR 0xEE, CHR 0xEF, CHR 0xF0, CHR 0xF1, CHR 0xF2, CHR 0xF3, CHR 0xF4,
              CHR 0xF5, CHR 0xF6, CHR 0xF8, CHR 0xF9, CHR 0xFA, CHR 0xFB, CHR 0xFC,
              CHR 0xFD, CHR 0xFE])) c of
        None \<Rightarrow> c
      | Some l \<Rightarrow> l)"

definition toLowerCase :: "string \<Rightarrow> string" where
  "toLowerCase s = map lower_char s"

text \<open>What \<open>new Date()\<close> prints when the engine asks for the time and for the date.\<close>

record clock =
  toLocaleTimeString :: string
  toLocaleDateString :: string

subsection \<open>The pattern \<open>what is (\d+) (plus|minus|times|divided by) (\d+)\<close>\<close>

text \<open>
  The pattern is matched piece by piece. A greedy run of digits never has to give digits
  back here, since what follows it in the pattern is a space or the end of the pattern;
  and the four alternatives start with different letters, so at most one of them applies.
\<close>

definition strip_prefix :: "string \<Rightarrow> string \<Rightarrow> string option" where
  "strip_prefix p s = (if prefix p s then Some (drop (length p) s) else None)"

definition match_digits :: "string \<Rightarrow> (string \<times> string) option" where
  "match_digits s =
     (if takeWhile is_digit s = [] then None
      else Some (takeWhile is_digit s, dropWhile is_digit s))"

definition operations :: "string list" where
  "operations = [''plus'', ''minus'', ''times'', ''divided by'']"

definition match_operation :: "string \<Rightarrow> (string \<times> string) option" where
  "match_operation s =
     (case filter (\<lambda>operation. prefix operation s) operations of
        [] \<Rightarrow> None
      | operation # _ \<Rightarrow> Some (operation, drop (length operation) s))"

text \<open>The pattern at the start of a string: the three captured groups.\<close>

definition match_at :: "string \<Rightarrow> (string \<times> string \<times> string) option" where
  "match_at s =
     (case strip_prefix ''what is '' s of
        None \<Rightarrow> None
      | Some r1 \<Rightarrow>
     (case match_digits r1 of
        None \<Rightarrow> None
      | Some (num1, r2) \<Rightarrow>
     (case strip_prefix '' '' r2 of
        None \<Rightarrow> None
      | Some r3 \<Rightarrow>
     (case match_operation r3 of
        None \<Rightarrow> None
      | Some (operation, r4) \<Rightarrow>
     (case strip_prefix '' '' r4 of
        None \<Rightarrow> None
      | Some r5 \<Rightarrow>
     (case match_digits r5 of
        None \<Rightarrow> None
      | Some (num2, r6) \<Rightarrow> Some (num1, operation, num2)))))))"

text \<open>\<open>command.match(...)\<close>: the match at the leftmost position that has one.\<close>

fun mathMatch :: "string \<Rightarrow> (string \<times> string \<times> string) option" where
  "mathMatch [] = match_at []"
| "mathMatch (c # cs) =
     (case match_at (c # cs) of Some m \<Rightarrow> Some m | None \<Rightarrow> mathMatch cs)"

text \<open>The \<open>switch\<close> on the operation; \<open>result\<close> starts as 0.\<close>

definition calculate :: "string \<Rightarrow> number \<Rightarrow> number \<Rightarrow> number" where
  "calculate operation a b =
     (if operation = ''plus'' then num_add a b
      else if operation = ''minus'' then num_sub a b
      else if operation = ''times'' then num_mul a b
      else if operation = ''divided by'' then num_div a b
      else Finite 0)"

subsection \<open>The cascade\<close>

definition greeting :: string where
  "greeting =
     ''Hello! I'' @ [CHR 0x27] @ ''m your personal voice assistant. How can I help you today?''"

definition weather_reply :: string where
  "weather_reply =
     ''I'' @ [CHR 0x27] @ ''d love to help with the weather, but I need to be connected to a weather service. For now, I recommend checking your local weather app.''"

definition reminder_reply :: string where
  "reminder_reply =
     ''I'' @ [CHR 0x27] @ ''ve noted your reminder request. In a full implementation, I would set up notifications for you.''"

definition music_reply :: string where
  "music_reply =
     ''I'' @ [CHR 0x27] @ ''d be happy to play music for you. In a full implementation, I would connect to your music streaming service.''"

definition calculate_reply :: string where
  "calculate_reply =
     ''I can help with calculations. Try asking me specific math questions like '' @
     [CHR 0x27] @ ''what is 25 times 4?'' @ [CHR 0x27]"

definition search_reply :: string where
  "search_reply =
     ''I can help you search for information. In a full implementation, I would perform web searches and provide results.''"

definition fallback :: "string \<Rightarrow> string" where
  "fallback command =
     ''I heard you say: '' @ [CHR 0x27] @ command @ [CHR 0x27] @ ''. I'' @ [CHR 0x27] @
     ''m still learning, but I can help with time, date, simple math, and basic commands. What would you like me to do?''"

definition generateResponse :: "clock \<Rightarrow> string \<Rightarrow> string" where
  "generateResponse now command =
     (if str_includes command ''hello'' \<or> str_includes command ''hi'' then greeting
      else if str_includes command ''time''
      then ''The current time is '' @ toLocaleTimeString now @ ''.''
      else if str_includes command ''date''
      then ''Today is '' @ toLocaleDateString now @ ''.''
      else if str_includes command ''weather'' then weather_reply
      else if str_includes command ''remind'' \<or> str_includes command ''reminder''
      then reminder_reply
      else if str_includes command ''play music'' \<or> str_includes command ''play song''
      then music_reply
      else if str_includes command ''calculate'' \<or> str_includes command ''math''
      then calculate_reply
      else if str_includes command ''search'' \<or> str_includes command ''look up''
      then search_reply
      else
        (case mathMatch command of
           Some (num1, operation, num2) \<Rightarrow>
             (let a = parseInt num1; b = parseInt num2; result = calculate operation a b
              in number_toString a @ '' '' @ operation @ '' '' @ number_toString b @
                 '' equals '' @ number_toString result @ ''.'')
         | None \<Rightarrow> fallback command))"

text \<open>The engine as \<open>processCommand\<close> calls it: on the lower-cased command.\<close>

definition respond :: "clock \<Rightarrow> string \<Rightarrow> string" where
  "respond now command = generateResponse now (toLowerCase command)"

text \<open>The keywords of the branches that come before the arithmetic pattern.\<close>

definition branch_keywords :: "string list" where
  "branch_keywords =
     [''hello'', ''hi'', ''time'', ''date'', ''weather'', ''remind'', ''reminder'',
      ''play music'', ''play song'', ''calculate'', ''math'', ''search'', ''look up'']"

definition keyword_branch :: "string \<Rightarrow> bool" where
  "keyword_branch command = list_ex (str_includes command) branch_keywords"

definition noon :: clock where
  "noon =
     \<lparr>toLocaleTimeString = ''12:00:00 PM'', toLocaleDateString = ''Monday, November 2, 2026''\<rparr>"

section \<open>Properties of the chat proxy\<close>

lemma slice_last10: "slice (- 10) xs = drop (length xs - 10) xs"
  by (auto simp: slice_def Let_def max_def nat_diff_distrib')

text \<open>
  Claim C1. For every conversation history list, the proxy builds the upstream message
  list as the fixed system instruction, then the most recent 10 entries of the history
  (all of them when there are 10 or fewer) in their original order and unmodified, then
  the new user message: the history splits into an older part and a recent part of
  \<open>min 10 (length hist)\<close> entries, and the list is the system object, the recent part,
  and the object with role \<open>user\<close> whose content is the message. With a credential
  configured and a body that is an object with this history (or with none, for the empty
  history), this list is the \<open>messages\<close> of the one request on which the handler's
  answer depends.
\<close>

theorem build_messages_last_ten:
  "\<exists>older recent.
     hist = older @ recent \<and> length recent = min 10 (length hist) \<and>
     build_messages message (JArr hist) =
       Inr ([JObj [(''role'', JStr ''system''), (''content'', JStr system_content)]] @ recent @
            [JObj ((''role'', JStr ''user'') #
                   (case message of None \<Rightarrow> [] | Some m \<Rightarrow> [(''content'', m)]))]) \<and>
     (key \<noteq> [] \<and> json_body req = Inr (JObj kvs) \<and> map_of kvs ''message'' = message \<and>
      (map_of kvs ''conversationHistory'' = Some (JArr hist) \<or>
       map_of kvs ''conversationHistory'' = None \<and> hist = []) \<longrightarrow>
        (\<exists>rq. upstream_request (Some key) req = Inr rq \<and>
              bearer rq = key \<and> model rq = ''gpt-4o'' \<and>
              messages rq =
                [JObj [(''role'', JStr ''system''), (''content'', JStr system_content)]] @ recent @
                [JObj ((''role'', JStr ''user'') #
                       (case message of None \<Rightarrow> [] | Some m \<Rightarrow> [(''content'', m)]))] \<and>
              handler (Some key) fetch req = handler (Some key) (\<lambda>r. fetch rq) req))"
proof -
  let ?older = "take (length hist - 10) hist"
  let ?recent = "drop (length hist - 10) hist"
  let ?msgs = "[JObj [(''role'', JStr ''system''), (''content'', JStr system_content)]] @ ?recent @
            [JObj ((''role'', JStr ''user'') #
                   (case message of None \<Rightarrow> [] | Some m \<Rightarrow> [(''content'', m)]))]"
  have "hist = ?older @ ?recent"
    by simp
  moreover have "length ?recent = min 10 (length hist)"
    by auto
  moreover have b: "build_messages message (JArr hist) = Inr ?msgs"
    by (simp add: build_messages_def spread_slice_def slice_last10 system_message_def
        user_message_def)
  moreover have "\<exists>rq. upstream_request (Some key) req = Inr rq \<and>
              bearer rq = key \<and> model rq = ''gpt-4o'' \<and> messages rq = ?msgs \<and>
              handler (Some key) fetch req = handler (Some key) (\<lambda>r. fetch rq) req"
    if h: "key \<noteq> [] \<and> json_body req = Inr (JObj kvs) \<and> map_of kvs ''message'' = message \<and>
      (map_of kvs ''conversationHistory'' = Some (JArr hist) \<or>
       map_of kvs ''conversationHistory'' = None \<and> hist = [])"
  proof -
    from h have d: "destructure (JObj kvs) = Inr (message, JArr hist)"
      by (auto simp: destructure_def)
    with h b have u: "upstream_request (Some key) req = Inr (completion_body key ?msgs)"
      by (simp add: upstream_request_def)
    have "handler (Some key) fetch req =
        handler (Some key) (\<lambda>r. fetch (completion_body key ?msgs)) req"
      by (simp add: handler_def try_block_def u)
    with u show ?thesis
      by (simp add: completion_body_def)
  qed
  ultimately show ?thesis
    by blast
qed

theorem build_messages_last_ten_witness:
  "''sk-test'' \<noteq> [] \<and>
   json_body seventh_question =
     Inr (JObj [(''message'', JStr ''q7''), (''conversationHistory'', JArr six_exchanges)]) \<and>
   length six_exchanges = 12 \<and>
   (\<exists>rq. upstream_request (Some ''sk-test'') seventh_question = Inr rq \<and>
      messages rq =
        [JObj [(''role'', JStr ''system''), (''content'', JStr system_content)]] @
        drop 2 six_exchanges @
        [JObj [(''role'', JStr ''user''), (''content'', JStr ''q7'')]])"
proof -
  have k: "''sk-test'' \<noteq> []"
    by simp
  have j: "json_body seventh_question =
      Inr (JObj [(''message'', JStr ''q7''), (''conversationHistory'', JArr six_exchanges)])"
    by (simp add: seventh_question_def)
  have n: "length six_exchanges = 12"
    by (simp add: six_exchanges_def)
  have u: "\<exists>rq. upstream_request (Some ''sk-test'') seventh_question = Inr rq \<and>
      messages rq =
        [JObj [(''role'', JStr ''system''), (''content'', JStr system_content)]] @
        drop 2 six_exchanges @
        [JObj [(''role'', JStr ''user''), (''content'', JStr ''q7'')]]"
    by (simp add: upstream_request_def seventh_question_def destructure_def build_messages_def
        spread_slice_def slice_last10 six_exchanges_def completion_body_def system_message_def
        user_message_def)
  show ?thesis
    using k j n u
      build_messages_last_ten [of six_exchanges "Some (JStr ''q7'')" "''sk-test''" seventh_question
            "[(''message'', JStr ''q7''), (''conversationHistory'', JArr six_exchanges)]"
            unavailable]
    by simp
qed

text \<open>
  When the \<open>try\<close> block returns a completion text, the upstream service answered some
  call with a 2xx status and a body whose first choice carries that text, which is truthy.
\<close>

lemma try_block_Inr:
  assumes "try_block key fetch req = Inr reply"
  shows "\<exists>rq st data. fetch rq = Fetched st (Inr data) \<and> ok st \<and>
           completion_content data = Inr (Some reply) \<and> truthy (Some reply)"
proof -
  from assms obtain rq where u: "upstream_request key req = Inr rq"
    by (cases "upstream_request key req") (simp_all add: try_block_def)
  from assms u obtain st pb where f: "fetch rq = Fetched st pb"
    by (cases "fetch rq") (auto simp: try_block_def)
  from assms u f have o: "ok st"
    by (auto simp: try_block_def split: if_splits)
  from assms u f o obtain data where b: "pb = Inr data"
    by (cases pb) (auto simp: try_block_def)
  from assms u f o b obtain c where c: "completion_content data = Inr c"
    by (cases "completion_content data") (auto simp: try_block_def)
  from assms u f o b c have "c = Some reply \<and> truthy (Some reply)"
    by (cases c) (auto simp: try_block_def split: if_splits)
  with f o b c show ?thesis
    by blast
qed

lemma try_block_upstream_error_at:
  assumes "upstream_request key req = Inr rq" and "upstream_error (fetch rq)"
  shows "\<exists>msg. try_block key fetch req = Inl msg"
  using assms
  by (auto simp: try_block_def upstream_error_def
      split: fetch_result.splits sum.splits option.splits)

text \<open>
  Claim C3, as stated, asks for a JSON body with the fields \<open>response\<close> and \<open>success\<close> on
  every request. The preflight branch answers with the plain text \<open>ok\<close>: its status is
  200, but its body has no such field.
\<close>

theorem preflight_body_counterexample:
  "body (handler (Some ''sk-test'') unavailable preflight) = Text ''ok'' \<and>
   body_field (body (handler (Some ''sk-test'') unavailable preflight)) ''success'' = None \<and>
   body_field (body (handler (Some ''sk-test'') unavailable preflight)) ''response'' = None"
  by (simp add: handler_def preflight_def)

text \<open>
  Claim C3, amended. Every request is answered with status 200. A preflight (\<open>OPTIONS\<close>)
  is answered with the plain text \<open>ok\<close>. Every other request gets a JSON object:
  \<open>response\<close> and \<open>success = true\<close>, or \<open>error\<close>, the fixed apology as \<open>response\<close>, and
  \<open>success = false\<close>. When the upstream service answers the call made with a status
  outside 200 to 299 or with an empty completion, the second form is the answer, with the
  error \<open>OpenAI API error:\<close> and the status, or \<open>No response from AI\<close>; so it is when an
  exception is thrown before the call. The failure shows in \<open>success\<close>, never in the
  status.
\<close>

theorem handler_status_200:
  "status (handler key fetch req) = 200 \<and>
   (http_method req = ''OPTIONS'' \<longrightarrow> body (handler key fetch req) = Text ''ok'') \<and>
   (http_method req \<noteq> ''OPTIONS'' \<longrightarrow>
      (\<exists>reply. body (handler key fetch req) =
                 Json (JObj [(''response'', reply), (''success'', JBool True)])) \<or>
      (\<exists>msg. body (handler key fetch req) =
                 Json (JObj [(''error'', JStr msg), (''response'', JStr apology),
                             (''success'', JBool False)]))) \<and>
   (http_method req \<noteq> ''OPTIONS'' \<and> upstream_request key req = Inr rq \<and>
    upstream_error (fetch rq) \<longrightarrow>
      (\<exists>msg. body (handler key fetch req) =
                 Json (JObj [(''error'', JStr msg), (''response'', JStr apology),
                             (''success'', JBool False)]))) \<and>
   (http_method req \<noteq> ''OPTIONS'' \<and> upstream_request key req = Inr rq \<and>
    fetch rq = Fetched st parsed_body \<and> \<not> (200 \<le> st \<and> st \<le> 299) \<longrightarrow>
      body (handler key fetch req) =
        Json (JObj [(''error'', JStr (''OpenAI API error: '' @ show_nat st)),
                    (''response'', JStr apology), (''success'', JBool False)])) \<and>
   (http_method req \<noteq> ''OPTIONS'' \<and> upstream_request key req = Inr rq \<and>
    fetch rq = Fetched st (Inr data) \<and> 200 \<le> st \<and> st \<le> 299 \<and>
    completion_content data = Inr c \<and> \<not> truthy c \<longrightarrow>
      body (handler key fetch req) =
        Json (JObj [(''error'', JStr ''No response from AI''),
                    (''response'', JStr apology), (''success'', JBool False)])) \<and>
   (http_method req \<noteq> ''OPTIONS'' \<and> upstream_request key req = Inl e \<longrightarrow>
      body (handler key fetch req) =
        Json (JObj [(''error'', JStr e), (''response'', JStr apology),
                    (''success'', JBool False)]))"
proof (intro conjI impI)
  show "status (handler key fetch req) = 200"
    by (simp add: handler_def split: sum.splits)
next
  assume "http_method req = ''OPTIONS''"
  then show "body (handler key fetch req) = Text ''ok''"
    by (simp add: handler_def)
next
  assume "http_method req \<noteq> ''OPTIONS''"
  then show "(\<exists>reply. body (handler key fetch req) =
                 Json (JObj [(''response'', reply), (''success'', JBool True)])) \<or>
      (\<exists>msg. body (handler key fetch req) =
                 Json (JObj [(''error'', JStr msg), (''response'', JStr apology),
                             (''success'', JBool False)]))"
    by (cases "try_block key fetch req")
       (simp_all add: handler_def success_body_def failure_body_def)
next
  assume a: "http_method req \<noteq> ''OPTIONS'' \<and> upstream_request key req = Inr rq \<and>
    upstream_error (fetch rq)"
  then obtain msg where "try_block key fetch req = Inl msg"
    using try_block_upstream_error_at by blast
  with a show "\<exists>msg. body (handler key fetch req) =
                 Json (JObj [(''error'', JStr msg), (''response'', JStr apology),
                             (''success'', JBool False)])"
    by (simp add: handler_def failure_body_def)
next
  assume "http_method req \<noteq> ''OPTIONS'' \<and> upstream_request key req = Inr rq \<and>
    fetch rq = Fetched st parsed_body \<and> \<not> (200 \<le> st \<and> st \<le> 299)"
  then show "body (handler key fetch req) =
        Json (JObj [(''error'', JStr (''OpenAI API error: '' @ show_nat st)),
                    (''response'', JStr apology), (''success'', JBool False)])"
    by (simp add: handler_def try_block_def ok_def failure_body_def)
next
  assume "http_method req \<noteq> ''OPTIONS'' \<and> upstream_request key req = Inr rq \<and>
    fetch rq = Fetched st (Inr data) \<and> 200 \<le> st \<and> st \<le> 299 \<and>
    completion_content data = Inr c \<and> \<not> truthy c"
  then show "body (handler key fetch req) =
        Json (JObj [(''error'', JStr ''No response from AI''),
                    (''response'', JStr apology), (''success'', JBool False)])"
    by (cases c) (simp_all add: handler_def try_block_def ok_def failure_body_def)
next
  assume "http_method req \<noteq> ''OPTIONS'' \<and> upstream_request key req = Inl e"
  then show "body (handler key fetch req) =
        Json (JObj [(''error'', JStr e), (''response'', JStr apology),
                    (''success'', JBool False)])"
    by (simp add: handler_def try_block_def failure_body_def)
qed

theorem handler_status_200_witness:
  "http_method hello_request \<noteq> ''OPTIONS'' \<and> http_method preflight = ''OPTIONS'' \<and>
   (\<exists>rq. upstream_request (Some ''sk-test'') hello_request = Inr rq \<and>
         unavailable rq = Fetched 503 (Inl ''Unexpected token'') \<and>
         upstream_error (unavailable rq) \<and> upstream_error (no_choice rq)) \<and>
   upstream_request (Some ''sk-test'') empty_post = Inl ''Unexpected end of JSON input'' \<and>
   status (handler (Some ''sk-test'') unavailable hello_request) = 200 \<and>
   body (handler (Some ''sk-test'') unavailable hello_request) =
     Json (JObj [(''error'', JStr ''OpenAI API error: 503''), (''response'', JStr apology),
                 (''success'', JBool False)]) \<and>
   body (handler (Some ''sk-test'') no_choice hello_request) =
     Json (JObj [(''error'', JStr ''No response from AI''), (''response'', JStr apology),
                 (''success'', JBool False)]) \<and>
   body (handler (Some ''sk-test'') unavailable empty_post) =
     Json (JObj [(''error'', JStr ''Unexpected end of JSON input''),
                 (''response'', JStr apology), (''success'', JBool False)]) \<and>
   body (handler (Some ''sk-test'') unavailable preflight) = Text ''ok''"
proof -
  define rq where "rq = completion_body ''sk-test''
      ([system_message] @ [] @ [user_message (Some (JStr ''hello''))])"
  have m: "http_method hello_request \<noteq> ''OPTIONS''"
    by (simp add: hello_request_def)
  have m': "http_method empty_post \<noteq> ''OPTIONS''"
    by (simp add: empty_post_def)
  have o: "http_method preflight = ''OPTIONS''"
    by (simp add: preflight_def)
  have q: "upstream_request (Some ''sk-test'') hello_request = Inr rq"
    by (simp add: rq_def upstream_request_def hello_request_def destructure_def
        build_messages_def spread_slice_def slice_last10)
  have q': "upstream_request (Some ''sk-test'') empty_post = Inl ''Unexpected end of JSON input''"
    by (simp add: upstream_request_def empty_post_def)
  have u: "unavailable rq = Fetched 503 (Inl ''Unexpected token'')"
    by (simp add: unavailable_def)
  have u': "\<not> (200 \<le> (503::nat) \<and> (503::nat) \<le> 299)"
    by simp
  have ue: "upstream_error (unavailable rq)"
    by (simp add: upstream_error_def unavailable_def ok_def)
  have n: "no_choice rq = Fetched 200 (Inr (JObj [(''choices'', JArr [])]))"
    by (simp add: no_choice_def)
  have n': "(200::nat) \<le> 200 \<and> (200::nat) \<le> 299"
    by simp
  have c: "completion_content (JObj [(''choices'', JArr [])]) = Inr None"
    by (simp add: completion_content_def)
  have ne: "upstream_error (no_choice rq)"
    by (simp add: upstream_error_def no_choice_def ok_def completion_content_def)
  have s: "show_nat 503 = ''503''"
    by (simp add: show_nat.simps digit_char_def)
  show ?thesis
    using m m' o q q' u u' ue n n' c ne s
      handler_status_200
        [where key = "Some ''sk-test''" and fetch = unavailable and req = hello_request
           and rq = rq and st = 503 and parsed_body = "Inl ''Unexpected token''"]
      handler_status_200
        [where key = "Some ''sk-test''" and fetch = no_choice and req = hello_request
           and rq = rq and st = 200 and data = "JObj [(''choices'', JArr [])]" and c = None]
      handler_status_200
        [where key = "Some ''sk-test''" and fetch = unavailable and req = empty_post
           and e = "''Unexpected end of JSON input''"]
      handler_status_200
        [where key = "Some ''sk-test''" and fetch = unavailable and req = preflight]
    by auto
qed

text \<open>
  Claim C6, as stated, asks for an error message containing \<open>API key\<close> on every request
  made without a credential. A body that does not parse as JSON makes \<open>req.json()\<close>
  throw before the credential is read, and a body that parses to \<open>null\<close> makes the
  destructuring throw: the error is then the message of that exception. A preflight is
  answered with the text \<open>ok\<close>.
\<close>

theorem no_credential_counterexample:
  "body_field (body (handler None unavailable empty_post)) ''error'' =
     Some (JStr ''Unexpected end of JSON input'') \<and>
   \<not> str_includes ''Unexpected end of JSON input'' ''API key'' \<and>
   body_field (body (handler None unavailable null_post)) ''error'' =
     Some (JStr (''Cannot destructure property '' @ quoted ''message'' @ '' of '' @
                 quoted ''(intermediate value)'' @ '' as it is null.'')) \<and>
   \<not> str_includes (''Cannot destructure property '' @ quoted ''message'' @ '' of '' @
                 quoted ''(intermediate value)'' @ '' as it is null.'') ''API key'' \<and>
   body_field (body (handler None unavailable preflight)) ''success'' = None \<and>
   body_field (body (handler None unavailable preflight)) ''error'' = None"
  by (simp add: handler_def try_block_def upstream_request_def empty_post_def preflight_def
      null_post_def destructure_def quoted_def failure_body_def)

text \<open>
  Claim C6, amended. Every request made while no credential is configured (the variable
  is unset or empty) is answered with status 200; every such request other than a
  preflight gets \<open>success = false\<close> and an error message; and when its body parses as
  JSON to a value other than \<open>null\<close>, the message is \<open>OpenAI API key not configured\<close>,
  which contains \<open>API key\<close>. For a body that does not parse, the message is the parser's.
\<close>

theorem no_credential_reported:
  assumes "key = None \<or> key = Some []"
  shows "status (handler key fetch req) = 200 \<and>
    (http_method req = ''OPTIONS'' \<longrightarrow> body (handler key fetch req) = Text ''ok'') \<and>
    (http_method req \<noteq> ''OPTIONS'' \<longrightarrow>
       (\<exists>msg. body (handler key fetch req) =
                 Json (JObj [(''error'', JStr msg), (''response'', JStr apology),
                             (''success'', JBool False)]))) \<and>
    (http_method req \<noteq> ''OPTIONS'' \<and> json_body req = Inr parsed \<and> parsed \<noteq> JNull \<longrightarrow>
       body (handler key fetch req) =
         Json (JObj [(''error'', JStr ''OpenAI API key not configured''),
                     (''response'', JStr apology), (''success'', JBool False)]) \<and>
       str_includes ''OpenAI API key not configured'' ''API key'') \<and>
    (http_method req \<noteq> ''OPTIONS'' \<and> json_body req = Inl e \<longrightarrow>
       body (handler key fetch req) =
         Json (JObj [(''error'', JStr e), (''response'', JStr apology),
                     (''success'', JBool False)]))"
proof -
  have u: "\<exists>msg. upstream_request key req = Inl msg"
    using assms
    by (auto simp: upstream_request_def split: sum.splits prod.splits)
  have p: "upstream_request key req = Inl ''OpenAI API key not configured''"
    if jb: "json_body req = Inr parsed" and nn: "parsed \<noteq> JNull"
  proof -
    obtain message conversationHistory
      where "destructure parsed = Inr (message, conversationHistory)"
      using nn by (cases parsed) (simp_all add: destructure_def)
    with jb assms show ?thesis
      by (auto simp: upstream_request_def missing_key_message_def)
  qed
  have e: "upstream_request key req = Inl e" if "json_body req = Inl e"
    using that by (simp add: upstream_request_def)
  show ?thesis
  proof (intro conjI impI)
    show "status (handler key fetch req) = 200"
      by (simp add: handler_def split: sum.splits)
    show "body (handler key fetch req) = Text ''ok''" if "http_method req = ''OPTIONS''"
      using that by (simp add: handler_def)
    show "\<exists>msg. body (handler key fetch req) =
                 Json (JObj [(''error'', JStr msg), (''response'', JStr apology),
                             (''success'', JBool False)])"
      if "http_method req \<noteq> ''OPTIONS''"
      using that u by (auto simp: handler_def try_block_def failure_body_def)
    show "body (handler key fetch req) =
         Json (JObj [(''error'', JStr ''OpenAI API key not configured''),
                     (''response'', JStr apology), (''success'', JBool False)])"
      if "http_method req \<noteq> ''OPTIONS'' \<and> json_body req = Inr parsed \<and> parsed \<noteq> JNull"
      using that p by (simp add: handler_def try_block_def failure_body_def)
    show "str_includes ''OpenAI API key not configured'' ''API key''"
      by simp
    show "body (handler key fetch req) =
         Json (JObj [(''error'', JStr e), (''response'', JStr apology),
                     (''success'', JBool False)])"
      if "http_method req \<noteq> ''OPTIONS'' \<and> json_body req = Inl e"
      using that e by (simp add: handler_def try_block_def failure_body_def)
  qed
qed

theorem no_credential_reported_witness:
  "((None :: string option) = None \<or> (None :: string option) = Some []) \<and>
   http_method hello_request \<noteq> ''OPTIONS'' \<and>
   json_body hello_request = Inr (JObj [(''message'', JStr ''hello'')]) \<and>
   JObj [(''message'', JStr ''hello'')] \<noteq> JNull \<and>
   json_body empty_post = Inl ''Unexpected end of JSON input'' \<and>
   status (handler None no_choice hello_request) = 200 \<and>
   body (handler None no_choice hello_request) =
     Json (JObj [(''error'', JStr ''OpenAI API key not configured''),
                 (''response'', JStr apology), (''success'', JBool False)]) \<and>
   body_field (body (handler None no_choice hello_request)) ''success'' = Some (JBool False) \<and>
   body (handler None no_choice empty_post) =
     Json (JObj [(''error'', JStr ''Unexpected end of JSON input''),
                 (''response'', JStr apology), (''success'', JBool False)])"
proof -
  have k: "(None :: string option) = None \<or> (None :: string option) = Some []"
    by simp
  have m: "http_method hello_request \<noteq> ''OPTIONS''"
    by (simp add: hello_request_def)
  have m': "http_method empty_post \<noteq> ''OPTIONS''"
    by (simp add: empty_post_def)
  have b: "json_body hello_request = Inr (JObj [(''message'', JStr ''hello'')])"
    by (simp add: hello_request_def)
  have b': "json_body empty_post = Inl ''Unexpected end of JSON input''"
    by (simp add: empty_post_def)
  have n: "JObj [(''message'', JStr ''hello'')] \<noteq> JNull"
    by simp
  show ?thesis
    using k m m' b b' n
      no_credential_reported
        [OF k, where req = hello_request and fetch = no_choice
           and parsed = "JObj [(''message'', JStr ''hello'')]"]
      no_credential_reported
        [OF k, where req = empty_post and fetch = no_choice
           and e = "''Unexpected end of JSON input''"]
    by auto
qed

section \<open>Properties of the conversation controller\<close>

lemmas controller_defs =
  press_button_def toggleListening_def emit_def onresult_def processCommand_call_def
  onerror_def onend_def processCommand_resume_def processCommand_try_def
  processCommand_catch_def speak_response_def speak_error_def

lemmas sample_run_defs = run_def mount_def initial_def controller_defs

lemma run_snoc: "run a b (evs @ [e]) = handle (run a b evs) e"
  by (simp add: run_def)

text \<open>
  Claim C4. In every state in which \<open>isProcessing\<close> is true, pressing the toggle control
  changes nothing: the state after it is the state before it, so every field
  (\<open>isListening\<close>, \<open>isProcessing\<close>, \<open>transcript\<close>, \<open>response\<close>) is unchanged, and the log
  of platform calls is unchanged too, so no capture session is started or stopped.
\<close>

theorem press_while_processing:
  "isProcessing s \<Longrightarrow> press_button s = s \<and> handle s Press = s"
  by (simp add: press_button_def)

theorem press_while_processing_witness:
  "isProcessing awaiting_reply \<and>
   press_button awaiting_reply = awaiting_reply \<and>
   effects (handle awaiting_reply Press) = [RecognitionStart, InvokeChat ''hello'']"
proof -
  have p: "isProcessing awaiting_reply"
    by (simp add: awaiting_reply_def sample_run_defs)
  have e: "effects awaiting_reply = [RecognitionStart, InvokeChat ''hello'']"
    by (simp add: awaiting_reply_def sample_run_defs)
  show ?thesis
    using p e press_while_processing [OF p] by simp
qed

subsection \<open>Listening and processing exclude each other\<close>

lemma resume_isListening: "isListening (processCommand_resume command r s) = isListening s"
  by (cases r) (simp_all add: controller_defs)

lemma resume_isProcessing: "\<not> isProcessing (processCommand_resume command r s)"
  by (cases r) (simp_all add: controller_defs)

lemma press_isListening: "isProcessing s \<Longrightarrow> isListening (press_button s) = isListening s"
  by (simp add: press_button_def)

lemma press_isProcessing: "isProcessing (press_button s) = isProcessing s"
  by (simp add: press_button_def toggleListening_def emit_def)

lemma handle_raises_processing:
  "\<not> isProcessing s \<Longrightarrow> isProcessing (handle s e) \<Longrightarrow> \<not> isListening (handle s e)"
  by (cases e)
     (simp_all add: press_isProcessing resume_isProcessing onresult_def processCommand_call_def
        onerror_def onend_def emit_def split: if_splits)

lemma handle_keeps_not_listening:
  "isProcessing s \<Longrightarrow> \<not> isListening s \<Longrightarrow> \<not> isListening (handle s e)"
  by (cases e)
     (simp_all add: press_isListening resume_isListening onresult_def processCommand_call_def
        onerror_def onend_def emit_def)

lemma handle_preserves:
  assumes "\<not> (isListening s \<and> isProcessing s)"
  shows "\<not> (isListening (handle s e) \<and> isProcessing (handle s e))"
proof (cases "isProcessing s")
  case True
  with assms have "\<not> isListening s"
    by simp
  with True show ?thesis
    using handle_keeps_not_listening by blast
next
  case False
  then show ?thesis
    using handle_raises_processing by blast
qed

lemma run_invariant: "\<not> (isListening (run a b evs) \<and> isProcessing (run a b evs))"
proof (induction evs rule: rev_induct)
  case Nil
  show ?case
    by (simp add: run_def mount_def initial_def emit_def)
next
  case (snoc e evs)
  then show ?case
    unfolding run_snoc by (rule handle_preserves)
qed

text \<open>
  Claim C7. After every run of events from the mounted component, \<open>isListening\<close> and
  \<open>isProcessing\<close> are not both true. Every transition that raises \<open>isProcessing\<close> leaves
  \<open>isListening\<close> false, and no transition raises \<open>isListening\<close> while \<open>isProcessing\<close> is
  true.
\<close>

theorem never_listening_and_processing:
  "\<not> (isListening (run a b evs) \<and> isProcessing (run a b evs)) \<and>
   (\<not> isProcessing s \<and> isProcessing (handle s e) \<longrightarrow> \<not> isListening (handle s e)) \<and>
   (isProcessing s \<and> \<not> isListening s \<longrightarrow> \<not> isListening (handle s e))"
  using run_invariant handle_raises_processing handle_keeps_not_listening by blast

theorem never_listening_and_processing_witness:
  "isListening listening \<and> \<not> isProcessing listening \<and>
   isProcessing (handle listening (Result ''hello'' True)) \<and>
   \<not> isListening (handle listening (Result ''hello'' True)) \<and>
   isProcessing awaiting_reply \<and> \<not> isListening awaiting_reply \<and>
   \<not> isListening (handle awaiting_reply Press)"
proof -
  have l: "isListening listening \<and> \<not> isProcessing listening"
    by (simp add: listening_def sample_run_defs)
  have r: "isProcessing (handle listening (Result ''hello'' True))"
    by (simp add: listening_def sample_run_defs)
  have w: "isProcessing awaiting_reply \<and> \<not> isListening awaiting_reply"
    by (simp add: awaiting_reply_def sample_run_defs)
  show ?thesis
    using l r w
      never_listening_and_processing [of True True "[]" listening "Result ''hello'' True"]
      never_listening_and_processing [of True True "[]" awaiting_reply Press]
    by blast
qed

subsection \<open>The missing-credential notice\<close>

lemma resume_needsApiKey:
  "needsApiKey (processCommand_resume command r s) =
     (needsApiKey s \<or> reports_missing_credential r)"
  by (cases r) (auto simp: controller_defs reports_missing_credential_def mentions_api_key_def)

lemma handle_needsApiKey:
  "needsApiKey (handle s e) =
     (needsApiKey s \<or>
      (case e of ChatResolved command r \<Rightarrow> reports_missing_credential r | _ \<Rightarrow> False))"
  by (cases e)
     (simp_all add: resume_needsApiKey press_button_def toggleListening_def emit_def
        onresult_def processCommand_call_def onerror_def onend_def)

lemma run_needsApiKey:
  "needsApiKey (run a b evs) =
     (\<exists>command r. ChatResolved command r \<in> set evs \<and> reports_missing_credential r)"
proof (induction evs rule: rev_induct)
  case Nil
  show ?case
    by (simp add: run_def mount_def initial_def emit_def)
next
  case (snoc e evs)
  show ?case
    unfolding run_snoc handle_needsApiKey snoc.IH
    by (cases e) auto
qed

text \<open>
  Claim C8. \<open>needsApiKey\<close> becomes true only in the transition that processes a reply of
  the response engine reporting a missing credential (an error whose message contains
  \<open>API key\<close>), so it is true after a run only if the run holds such a reply; and once true
  it stays true under every transition and every continuation of the run.
\<close>

theorem needsApiKey_only_set_on_missing_credential:
  "(needsApiKey s \<longrightarrow> needsApiKey (handle s e)) \<and>
   (\<not> needsApiKey s \<and> needsApiKey (handle s e) \<longrightarrow>
      (\<exists>command r. e = ChatResolved command r \<and> reports_missing_credential r)) \<and>
   (needsApiKey (run a b evs) \<longrightarrow>
      (\<exists>command r. ChatResolved command r \<in> set evs \<and> reports_missing_credential r)) \<and>
   (needsApiKey (run a b evs) \<longrightarrow> needsApiKey (run a b (evs @ later)))"
proof (intro conjI impI)
  show "needsApiKey (handle s e)" if "needsApiKey s"
    using that by (simp add: handle_needsApiKey)
  show "\<exists>command r. e = ChatResolved command r \<and> reports_missing_credential r"
    if "\<not> needsApiKey s \<and> needsApiKey (handle s e)"
    using that unfolding handle_needsApiKey by (cases e) auto
  show "\<exists>command r. ChatResolved command r \<in> set evs \<and> reports_missing_credential r"
    if "needsApiKey (run a b evs)"
    using that by (simp add: run_needsApiKey)
  show "needsApiKey (run a b (evs @ later))" if "needsApiKey (run a b evs)"
    using that unfolding run_needsApiKey by auto
qed

theorem needsApiKey_only_set_on_missing_credential_witness:
  "\<not> needsApiKey awaiting_reply \<and>
   needsApiKey (handle awaiting_reply (ChatResolved ''hello'' missing_key_reply)) \<and>
   reports_missing_credential missing_key_reply \<and>
   needsApiKey (run True True missing_key_run) \<and>
   needsApiKey (handle (run True True missing_key_run) Press) \<and>
   needsApiKey (run True True (missing_key_run @ [Press, Result ''hello'' True,
      ChatResolved ''hello'' (Data True None ''Hello!'')]))"
proof -
  have a: "\<not> needsApiKey awaiting_reply"
    by (simp add: awaiting_reply_def sample_run_defs)
  have b: "needsApiKey (handle awaiting_reply (ChatResolved ''hello'' missing_key_reply))"
    by (simp add: awaiting_reply_def missing_key_reply_def mentions_api_key_def sample_run_defs)
  have c: "needsApiKey (run True True missing_key_run)"
    by (simp add: missing_key_run_def missing_key_reply_def mentions_api_key_def sample_run_defs)
  show ?thesis
    using a b c
      needsApiKey_only_set_on_missing_credential
        [of awaiting_reply "ChatResolved ''hello'' missing_key_reply" True True missing_key_run
            "[Press, Result ''hello'' True, ChatResolved ''hello'' (Data True None ''Hello!'')]"]
      needsApiKey_only_set_on_missing_credential
        [of "run True True missing_key_run" Press True True "[]" "[]"]
    by auto
qed

section \<open>Properties of the local response engine\<close>

text \<open>\<open>str_includes\<close> is containment: the needle occurs somewhere in the string.\<close>

lemma str_includes_iff: "str_includes s sub \<longleftrightarrow> (\<exists>pre post. s = pre @ sub @ post)"
proof (induction s)
  case Nil
  show ?case by auto
next
  case (Cons c cs)
  show ?case
  proof
    assume "str_includes (c # cs) sub"
    then consider "prefix sub (c # cs)" | "str_includes cs sub" by auto
    then show "\<exists>pre post. c # cs = pre @ sub @ post"
    proof cases
      case 1
      then obtain post where "c # cs = sub @ post" by (auto simp: prefix_def)
      then have "c # cs = [] @ sub @ post" by simp
      then show ?thesis by blast
    next
      case 2
      with Cons.IH obtain pre post where "cs = pre @ sub @ post" by blast
      then have "c # cs = (c # pre) @ sub @ post" by simp
      then show ?thesis by blast
    qed
  next
    assume "\<exists>pre post. c # cs = pre @ sub @ post"
    then obtain pre post where e: "c # cs = pre @ sub @ post" by blast
    show "str_includes (c # cs) sub"
    proof (cases pre)
      case Nil
      with e have "prefix sub (c # cs)" by (simp add: prefix_def)
      then show ?thesis by simp
    next
      case (Cons d pre')
      with e have "cs = pre' @ sub @ post" by simp
      with Cons.IH have "str_includes cs sub" by blast
      then show ?thesis by simp
    qed
  qed
qed

text \<open>
  Claim C9. The greeting branch matches by substring: for every input whose lower-casing
  contains \<open>hi\<close> anywhere, also inside another word, the engine returns the fixed
  greeting, whatever the clock says and whatever the later branches would answer.
\<close>

theorem greeting_by_substring:
  "toLowerCase input = pre @ ''hi'' @ post \<Longrightarrow> respond now input = greeting"
proof -
  assume "toLowerCase input = pre @ ''hi'' @ post"
  then have "str_includes (toLowerCase input) ''hi''"
    unfolding str_includes_iff by blast
  then show ?thesis
    by (simp add: respond_def generateResponse_def)
qed

theorem greeting_by_substring_witness:
  "toLowerCase ''This'' = ''t'' @ ''hi'' @ ''s'' \<and> respond noon ''This'' = greeting \<and>
   toLowerCase ''which'' = ''w'' @ ''hi'' @ ''ch'' \<and> respond noon ''which'' = greeting"
proof -
  have a: "toLowerCase ''This'' = ''t'' @ ''hi'' @ ''s''"
    by (simp add: toLowerCase_def lower_char_def)
  have b: "toLowerCase ''which'' = ''w'' @ ''hi'' @ ''ch''"
    by (simp add: toLowerCase_def lower_char_def)
  show ?thesis
    using a b greeting_by_substring [OF a, of noon] greeting_by_substring [OF b, of noon]
    by simp
qed

subsection \<open>The arithmetic pattern\<close>

lemmas match_defs =
  match_at_def strip_prefix_def match_digits_def match_operation_def operations_def is_digit_def

lemma strip_prefix_Some: "strip_prefix p s = Some r \<longleftrightarrow> s = p @ r"
  by (auto simp: strip_prefix_def prefix_def)

lemma match_digits_Some:
  "match_digits s = Some (d, r) \<Longrightarrow> s = d @ r \<and> d \<noteq> [] \<and> list_all is_digit d"
  by (auto simp: match_digits_def list_all_iff split: if_splits dest: set_takeWhileD)

lemma match_operation_Some:
  "match_operation s = Some (operation, r) \<Longrightarrow> s = operation @ r \<and> operation \<in> set operations"
  by (auto simp: match_operation_def operations_def prefix_def split: list.splits if_splits)

lemma match_at_sound:
  assumes "match_at s = Some (a, operation, b)"
  shows "\<exists>rest. s = ''what is '' @ a @ '' '' @ operation @ '' '' @ b @ rest \<and>
           a \<noteq> [] \<and> list_all is_digit a \<and> operation \<in> set operations \<and>
           b \<noteq> [] \<and> list_all is_digit b"
proof -
  from assms obtain r1 r2 r3 r4 r5 r6
    where "strip_prefix ''what is '' s = Some r1"
      and "match_digits r1 = Some (a, r2)"
      and "strip_prefix '' '' r2 = Some r3"
      and "match_operation r3 = Some (operation, r4)"
      and "strip_prefix '' '' r4 = Some r5"
      and "match_digits r5 = Some (b, r6)"
    by (auto simp: match_at_def split: option.splits)
  then have "s = ''what is '' @ r1" "r1 = a @ r2" "a \<noteq> []" "list_all is_digit a"
    "r2 = '' '' @ r3" "r3 = operation @ r4" "operation \<in> set operations"
    "r4 = '' '' @ r5" "r5 = b @ r6" "b \<noteq> []" "list_all is_digit b"
    by (auto simp: strip_prefix_Some dest: match_digits_Some match_operation_Some)
  then show ?thesis
    by auto
qed

lemma mathMatch_sound:
  "mathMatch s = Some m \<Longrightarrow> \<exists>pre t. s = pre @ t \<and> match_at t = Some m"
proof (induction s)
  case Nil
  then show ?case by simp
next
  case (Cons c cs)
  show ?case
  proof (cases "match_at (c # cs)")
    case None
    with Cons.prems have "mathMatch cs = Some m" by simp
    with Cons.IH obtain pre t where "cs = pre @ t" "match_at t = Some m" by blast
    then have "c # cs = (c # pre) @ t \<and> match_at t = Some m" by simp
    then show ?thesis by blast
  next
    case (Some m')
    with Cons.prems have "c # cs = [] @ (c # cs) \<and> match_at (c # cs) = Some m" by simp
    then show ?thesis by blast
  qed
qed

text \<open>
  Every command in which the pattern finds the operation \<open>times\<close> contains \<open>time\<close>, so
  the time branch answers it and the multiplication is never reached.
\<close>

lemma times_is_shadowed:
  assumes "mathMatch command = Some (num1, ''times'', num2)"
  shows "str_includes command ''time''"
proof -
  from mathMatch_sound [OF assms] obtain pre t
    where "command = pre @ t" "match_at t = Some (num1, ''times'', num2)" by blast
  moreover from match_at_sound [OF this(2)] obtain rest
    where "t = ''what is '' @ num1 @ '' '' @ ''times'' @ '' '' @ num2 @ rest" by blast
  ultimately have "command = (pre @ ''what is '' @ num1 @ '' '') @ ''time'' @ (''s '' @ num2 @ rest)"
    by simp
  then show ?thesis
    unfolding str_includes_iff by blast
qed


lemma lower_25: "toLowerCase ''what is 25 times 4'' = ''what is 25 times 4''"
  by (simp add: toLowerCase_def lower_char_def)

text \<open>
  Claim C2. The engine's own hints name \<open>what is 25 times 4\<close> as the example of a
  calculation, and the reply should contain \<open>100\<close>. On the code the command contains
  \<open>time\<close>, the time branch comes first in the cascade, and the reply is the current time,
  whatever the clock says; at noon it does not contain \<open>100\<close>.
\<close>

theorem times_question_gets_the_time:
  "respond now ''what is 25 times 4'' =
     ''The current time is '' @ toLocaleTimeString now @ ''.'' \<and>
   respond noon ''what is 25 times 4'' = ''The current time is 12:00:00 PM.'' \<and>
   \<not> str_includes (respond noon ''what is 25 times 4'') ''100''"
  by (simp add: respond_def lower_25 generateResponse_def noon_def)

subsection \<open>Numbers\<close>

lemma width_bounds:
  "0 < n \<Longrightarrow> 1 \<le> width 2 n \<and> 2 ^ nat (width 2 n - 1) \<le> n \<and> n < 2 ^ nat (width 2 n)"
proof (induction "nat n" arbitrary: n rule: less_induct)
  case less
  show ?case
  proof (cases "n div 2 = 0")
    case True
    with less.prems have "n = 1" by presburger
    then show ?thesis by (simp add: width.simps)
  next
    case False
    with less.prems have pos: "0 < n div 2" by presburger
    moreover from less.prems have "n div 2 < n" by presburger
    then have "nat (n div 2) < nat n" using less.prems by simp
    ultimately have ih: "1 \<le> width 2 (n div 2)" "2 ^ nat (width 2 (n div 2) - 1) \<le> n div 2"
        "n div 2 < 2 ^ nat (width 2 (n div 2))"
      using less.hyps [of "n div 2"] by auto
    have w: "width 2 n = 1 + width 2 (n div 2)"
      using less.prems by (subst width.simps) simp
    have e: "nat (width 2 n - 1) = Suc (nat (width 2 (n div 2) - 1))" "nat (width 2 n) = Suc (nat (width 2 (n div 2)))"
      using ih(1) w by auto
    have "2 * 2 ^ nat (width 2 (n div 2) - 1) \<le> 2 * (n div 2)" using ih(2) by simp
    also have "\<dots> \<le> n" by presburger
    finally have lo: "2 ^ nat (width 2 n - 1) \<le> n" by (simp add: e)
    have "n < 2 * (n div 2) + 2" by presburger
    also have "\<dots> \<le> 2 * 2 ^ nat (width 2 (n div 2))" using ih(3) by simp
    finally have hi: "n < 2 ^ nat (width 2 n)" by (simp add: e)
    from lo hi w ih(1) show ?thesis by simp
  qed
qed


lemma pow2_nonneg: "0 \<le> e \<Longrightarrow> pow 2 e = of_int (2 ^ nat e)"
  by (simp add: pow_def)

lemma floor_log2_int:
  assumes "0 < n"
  shows "floor_log 2 (of_int n) = width 2 n - 1"
proof -
  from width_bounds [OF assms] have b: "1 \<le> width 2 n" "2 ^ nat (width 2 n - 1) \<le> n"
    by auto
  have "width 2 1 = 1"
    by (simp add: width.simps)
  moreover have "pow (of_int 2) (width 2 n - 1) \<le> of_int n"
  proof -
    have "pow 2 (width 2 n - 1) = of_int (2 ^ nat (width 2 n - 1))"
      using b(1) by (simp add: pow2_nonneg)
    also have "\<dots> \<le> of_int n"
      using b(2) by (simp only: of_int_le_iff)
    finally show ?thesis by simp
  qed
  ultimately show ?thesis
    by (simp add: floor_log_def)
qed

lemma round_half_even_int: "round_half_even (of_int m) = m"
  by (simp add: round_half_even_def)

lemma round_double_int:
  assumes "0 < n" and "n < 2 ^ 53"
  shows "round_double (of_int n) = Finite (of_int n)"
proof -
  define e where "e = width 2 n - 1"
  from width_bounds [OF assms(1)] have b: "0 \<le> e" "2 ^ nat e \<le> n"
    by (auto simp: e_def)
  have "e \<le> 52"
  proof (rule ccontr)
    assume "\<not> e \<le> 52"
    then have "53 \<le> nat e" by simp
    then have "(2::int) ^ 53 \<le> 2 ^ nat e" by (rule power_increasing) simp
    with b(2) assms(2) show False by simp
  qed
  define d where "d = nat (52 - e)"
  have ulp: "pow 2 (e - 52) = 1 / 2 ^ d"
    using \<open>e \<le> 52\<close> by (auto simp: pow_def d_def)
  have q: "(of_int n :: rat) / pow 2 (e - 52) = of_int (n * 2 ^ d)"
    by (simp add: ulp)
  have r: "of_int (round_half_even ((of_int n :: rat) / pow 2 (e - 52))) * pow 2 (e - 52) = of_int n"
    unfolding q round_half_even_int by (simp add: ulp)
  have big: "\<not> 1024 \<le> floor_log 2 (of_int n)"
    using \<open>e \<le> 52\<close> by (simp add: floor_log2_int [OF assms(1)] e_def)
  have m: "max (floor_log 2 (of_int n)) (- 1022) = e"
    using b(1) by (simp add: floor_log2_int [OF assms(1)] e_def)
  show ?thesis
    using assms(1) big
    by (simp add: round_double_def Let_def m r)
qed


lemma round_double_numeral:
  "numeral k < (2::int) ^ 53 \<Longrightarrow> round_double (numeral k) = Finite (numeral k)"
  using round_double_int [of "numeral k"] by simp

lemma round_double_1: "round_double 1 = Finite 1"
  using round_double_int [of 1] by simp

lemma floor_rat_numeral: "\<lfloor>numeral a / numeral b :: rat\<rfloor> = numeral a div numeral b"
  using floor_divide_of_int_eq [of "numeral a" "numeral b", where ?'a = rat] by simp

lemma floor_rat_one_numeral: "\<lfloor>1 / numeral b :: rat\<rfloor> = 1 div numeral b"
  using floor_divide_of_int_eq [of 1 "numeral b", where ?'a = rat] by simp

lemma replicate_numeral: "replicate (numeral k) x = x # replicate (pred_numeral k) x"
  by (simp add: numeral_eq_Suc)

lemmas toString_defs =
  positive_toString_def shortest_def shortest_from.simps floor_log_def width.simps pow_def
  candidates_def digits_valid_def round_double_numeral round_double_1 show_digits.simps
  digit_char_def Let_def replicate_numeral floor_rat_numeral floor_rat_one_numeral

lemma toString_8: "positive_toString 8 = ''8''"
  by (simp add: toString_defs)

lemma toString_10: "positive_toString 10 = ''10''"
  by (simp add: toString_defs)

lemma toString_5: "positive_toString 5 = ''5''"
  by (simp add: toString_defs)

lemma parseInt_10: "parseInt ''10'' = Finite 10"
  by (simp add: parseInt_def decimal_def digit_value_def round_double_numeral)

lemma parseInt_0: "parseInt ''0'' = Finite 0"
  by (simp add: parseInt_def decimal_def digit_value_def round_double_def)




lemma toString_3: "positive_toString 3 = ''3''"
  by (simp add: toString_defs)

lemma toString_2: "positive_toString 2 = ''2''"
  by (simp add: toString_defs)

lemma parseInt_5: "parseInt ''5'' = Finite 5"
  by (simp add: parseInt_def decimal_def digit_value_def round_double_numeral)

lemma parseInt_3: "parseInt ''3'' = Finite 3"
  by (simp add: parseInt_def decimal_def digit_value_def round_double_numeral)

lemma parseInt_2: "parseInt ''2'' = Finite 2"
  by (simp add: parseInt_def decimal_def digit_value_def round_double_numeral)

lemma round_double_half: "round_double (5 / 2) = Finite (5 / 2)"
  by code_simp

lemma toString_half: "positive_toString (5 / 2) = ''2.5''"
  by code_simp

lemma no_keyword_falls_through:
  "\<not> keyword_branch command \<Longrightarrow>
   generateResponse now command =
     (case mathMatch command of
        Some (num1, operation, num2) \<Rightarrow>
          number_toString (parseInt num1) @ '' '' @ operation @ '' '' @
          number_toString (parseInt num2) @ '' equals '' @
          number_toString (calculate operation (parseInt num1) (parseInt num2)) @ ''.''
      | None \<Rightarrow> fallback command)"
  by (simp add: keyword_branch_def branch_keywords_def generateResponse_def Let_def
      split: option.split del: mathMatch.simps)

lemma lower_10: "toLowerCase ''what is 10 divided by 0'' = ''what is 10 divided by 0''"
  by (simp add: toLowerCase_def lower_char_def)

lemma lower_half: "toLowerCase ''what is 5 divided by 2'' = ''what is 5 divided by 2''"
  by (simp add: toLowerCase_def lower_char_def)

text \<open>
  Claim C5. On \<open>what is 10 divided by 0\<close> no keyword branch applies, the arithmetic
  pattern matches with the operands \<open>10\<close> and \<open>0\<close>, the quotient is the number infinity,
  and the reply is \<open>10 divided by 0 equals Infinity.\<close>, whatever the clock says. Division
  is the plain quotient of numbers for all operands, with no case of its own for a zero
  divisor or a quotient that is not an integer: \<open>what is 5 divided by 2\<close> gives \<open>2.5\<close>.
\<close>

theorem division_by_zero_is_infinity:
  "\<not> keyword_branch (toLowerCase ''what is 10 divided by 0'') \<and>
   mathMatch (toLowerCase ''what is 10 divided by 0'') = Some (''10'', ''divided by'', ''0'') \<and>
   calculate ''divided by'' (parseInt ''10'') (parseInt ''0'') = PosInfinity \<and>
   respond now ''what is 10 divided by 0'' = ''10 divided by 0 equals Infinity.'' \<and>
   str_includes (respond now ''what is 10 divided by 0'') ''Infinity'' \<and>
   (\<forall>a b. calculate ''divided by'' a b = num_div a b) \<and>
   respond now ''what is 5 divided by 2'' = ''5 divided by 2 equals 2.5.''"
proof -
  have k: "\<not> keyword_branch ''what is 10 divided by 0''"
    by (simp add: keyword_branch_def branch_keywords_def)
  have m: "mathMatch ''what is 10 divided by 0'' = Some (''10'', ''divided by'', ''0'')"
    by (simp add: match_defs)
  have c: "calculate ''divided by'' (Finite 10) (Finite 0) = PosInfinity"
    by (simp add: calculate_def)
  have r: "respond now ''what is 10 divided by 0'' = ''10 divided by 0 equals Infinity.''"
    by (simp add: respond_def lower_10 no_keyword_falls_through [OF k] m c parseInt_10 parseInt_0
        toString_10 del: mathMatch.simps)
  have k': "\<not> keyword_branch ''what is 5 divided by 2''"
    by (simp add: keyword_branch_def branch_keywords_def)
  have m': "mathMatch ''what is 5 divided by 2'' = Some (''5'', ''divided by'', ''2'')"
    by (simp add: match_defs)
  have c': "calculate ''divided by'' (Finite 5) (Finite 2) = Finite (5 / 2)"
    by (simp add: calculate_def round_double_half)
  have r': "respond now ''what is 5 divided by 2'' = ''5 divided by 2 equals 2.5.''"
    by (simp add: respond_def lower_half no_keyword_falls_through [OF k'] m' c' parseInt_5
        parseInt_2 toString_5 toString_2 toString_half del: mathMatch.simps)
  have d: "\<forall>a b. calculate ''divided by'' a b = num_div a b"
    by (simp add: calculate_def)
  show ?thesis
    unfolding r r' lower_10 using k m c d by (simp add: parseInt_10 parseInt_0 del: mathMatch.simps)
qed

subsection \<open>Operands of the arithmetic pattern\<close>

lemma match_at_needs_prefix: "\<not> prefix ''what is '' t \<Longrightarrow> match_at t = None"
  by (simp add: match_at_def strip_prefix_def)

lemma mathMatch_None:
  "(\<And>t. suffix t s \<Longrightarrow> \<not> prefix ''what is '' t) \<Longrightarrow> mathMatch s = None"
proof (induction s)
  case Nil
  then have "\<not> prefix ''what is '' []" by simp
  then show ?case by (simp add: match_at_needs_prefix)
next
  case (Cons c cs)
  have "\<not> prefix ''what is '' (c # cs)"
    using Cons.prems [of "c # cs"] by simp
  then have "match_at (c # cs) = None"
    by (rule match_at_needs_prefix)
  moreover have "mathMatch cs = None"
  proof (rule Cons.IH)
    fix t assume "suffix t cs"
    then have "suffix t (c # cs)" by (simp add: suffix_Cons)
    then show "\<not> prefix ''what is '' t" by (rule Cons.prems)
  qed
  ultimately show ?case by simp
qed

lemma prefix_what_is_hd: "prefix ''what is '' t \<Longrightarrow> t \<noteq> [] \<and> hd t = CHR ''w''"
  by (auto simp: prefix_def)

lemma suffix_hd_in_set: "suffix t s \<Longrightarrow> t \<noteq> [] \<Longrightarrow> hd t \<in> set s"
  by (auto simp: suffix_def)

lemma prefix_first_space:
  "CHR '' '' \<notin> set u \<Longrightarrow> CHR '' '' \<notin> set v \<Longrightarrow>
   prefix (u @ CHR '' '' # p) (v @ CHR '' '' # q) \<Longrightarrow> u = v \<and> prefix p q"
proof (induction u arbitrary: v)
  case Nil
  then show ?case by (cases v) auto
next
  case (Cons a u)
  then show ?case by (cases v) auto
qed

lemma operation_cases:
  "operation \<in> set operations \<Longrightarrow>
   operation = ''plus'' \<or> operation = ''minus'' \<or> operation = ''times'' \<or> operation = ''divided by''"
  by (simp add: operations_def)

lemma operation_no_w: "operation \<in> set operations \<Longrightarrow> CHR ''w'' \<notin> set operation"
  by (auto dest: operation_cases)

lemma operation_not_is: "operation \<in> set operations \<Longrightarrow> \<not> prefix ''is '' (operation @ r)"
  by (auto dest: operation_cases)

lemma suffix_of_four:
  assumes "suffix t (a @ x @ b @ y)"
  shows "suffix t y \<or> (\<exists>b'. b' \<noteq> [] \<and> suffix b' b \<and> t = b' @ y) \<or>
         (\<exists>x'. suffix x' x \<and> t = x' @ b @ y) \<or>
         (\<exists>a'. a' \<noteq> [] \<and> suffix a' a \<and> t = a' @ x @ b @ y)"
proof -
  from assms consider "suffix t (x @ b @ y)" | a' where "t = a' @ x @ b @ y" "suffix a' a"
    unfolding suffix_append [of t a] by blast
  then show ?thesis
  proof cases
    case 1
    then consider "suffix t (b @ y)" | x' where "t = x' @ b @ y" "suffix x' x"
      unfolding suffix_append [of t x] by blast
    then show ?thesis
    proof cases
      case 1
      then consider "suffix t y" | b' where "t = b' @ y" "suffix b' b"
        unfolding suffix_append [of t b] by blast
      then show ?thesis
        by cases (auto simp: suffix_def)
    next
      case 2
      then show ?thesis by blast
    qed
  next
    case 2
    then show ?thesis
      by (cases "a' = []") auto
  qed
qed

lemma no_later_match:
  assumes op: "operation \<in> set operations"
    and x: "CHR '' '' \<notin> set x" and y: "CHR '' '' \<notin> set y"
    and t: "suffix t (''hat is '' @ x @ ('' '' @ operation @ '' '') @ y)"
  shows "\<not> prefix ''what is '' t"
proof
  assume p: "prefix ''what is '' t"
  then have w: "hd t = CHR ''w''"
    using prefix_what_is_hd by blast
  from suffix_of_four [OF t] consider
      (y) "suffix t y"
    | (b) b' where "b' \<noteq> []" "suffix b' ('' '' @ operation @ '' '')" "t = b' @ y"
    | (x) x' where "suffix x' x" "t = x' @ ('' '' @ operation @ '' '') @ y"
    | (a) a' where "a' \<noteq> []" "suffix a' ''hat is ''" "t = a' @ x @ ('' '' @ operation @ '' '') @ y"
    by blast
  then show False
  proof cases
    case y
    from p have "CHR '' '' \<in> set t"
      by (auto simp: prefix_def)
    moreover from y have "set t \<subseteq> set y"
      by (rule set_mono_suffix)
    ultimately show False
      using assms(3) by blast
  next
    case b
    then have "hd t = hd b'"
      by simp
    moreover have "hd b' \<in> set ('' '' @ operation @ '' '')"
      using b by (intro suffix_hd_in_set)
    ultimately show False
      using w operation_no_w [OF op] by auto
  next
    case x
    then have sp: "CHR '' '' \<notin> set x'"
      using assms(2) set_mono_suffix by blast
    have "prefix (''what'' @ CHR '' '' # ''is '') (x' @ CHR '' '' # (operation @ '' '' @ y))"
      using p x by simp
    then have "prefix ''is '' (operation @ '' '' @ y)"
      using prefix_first_space [of "''what''" x' "''is ''" "operation @ '' '' @ y"] sp by simp
    then show False
      using operation_not_is [OF op] by blast
  next
    case a
    then have "hd t = hd a'"
      by simp
    moreover have "hd a' \<in> set ''hat is ''"
      using a by (intro suffix_hd_in_set)
    ultimately show False
      using w by auto
  qed
qed

lemma space_not_digit: "\<not> is_digit CHR '' ''"
  by (simp add: is_digit_def)

lemma takeWhile_digits_space:
  "takeWhile is_digit (x @ CHR '' '' # r) = (if list_all is_digit x then x else takeWhile is_digit x)"
  by (induction x) (simp_all add: space_not_digit)

lemma dropWhile_digits_space:
  "dropWhile is_digit (x @ CHR '' '' # r) =
     (if list_all is_digit x then CHR '' '' # r else dropWhile is_digit x @ CHR '' '' # r)"
  by (induction x) (simp_all add: space_not_digit)

lemma dropWhile_no_space:
  "CHR '' '' \<notin> set x \<Longrightarrow> \<not> list_all is_digit x \<Longrightarrow>
   \<not> prefix '' '' (dropWhile is_digit x @ r)"
  by (induction x) auto

lemma match_operation_here:
  "operation \<in> set operations \<Longrightarrow>
   match_operation (operation @ CHR '' '' # r) = Some (operation, CHR '' '' # r)"
  by (auto dest!: operation_cases simp: match_operation_def operations_def)

lemma match_at_shape:
  assumes "operation \<in> set operations" and "CHR '' '' \<notin> set x"
  shows "match_at (''what is '' @ x @ '' '' @ operation @ '' '' @ y) =
           (if x \<noteq> [] \<and> list_all is_digit x \<and> takeWhile is_digit y \<noteq> []
            then Some (x, operation, takeWhile is_digit y) else None)"
proof (cases "list_all is_digit x")
  case True
  then show ?thesis
    using assms(1)
    by (simp add: match_at_def strip_prefix_def match_digits_def takeWhile_digits_space
        dropWhile_digits_space match_operation_here)
next
  case False
  then show ?thesis
    using assms(2) dropWhile_no_space [OF assms(2) False]
    by (simp add: match_at_def strip_prefix_def match_digits_def takeWhile_digits_space
        dropWhile_digits_space)
qed

lemma mathMatch_shape:
  assumes "operation \<in> set operations" and "CHR '' '' \<notin> set x" and "CHR '' '' \<notin> set y"
  shows "mathMatch (''what is '' @ x @ '' '' @ operation @ '' '' @ y) =
           (if x \<noteq> [] \<and> list_all is_digit x \<and> takeWhile is_digit y \<noteq> []
            then Some (x, operation, takeWhile is_digit y) else None)"
proof -
  have "mathMatch (''hat is '' @ x @ ('' '' @ operation @ '' '') @ y) = None"
    using no_later_match [OF assms] by (rule mathMatch_None)
  then have later: "mathMatch (''hat is '' @ x @ '' '' @ operation @ '' '' @ y) = None"
    by simp
  have "mathMatch (''what is '' @ x @ '' '' @ operation @ '' '' @ y) =
      (case match_at (''what is '' @ x @ '' '' @ operation @ '' '' @ y) of
         Some m \<Rightarrow> Some m
       | None \<Rightarrow> mathMatch (''hat is '' @ x @ '' '' @ operation @ '' '' @ y))"
    by (simp split: option.split)
  then show ?thesis
    unfolding later match_at_shape [OF assms(1,2)] by simp
qed

lemma lower_5: "toLowerCase ''what is 5 plus 3.5'' = ''what is 5 plus 3.5''"
  by (simp add: toLowerCase_def lower_char_def)

lemma lower_minus5: "toLowerCase ''what is -5 plus 3'' = ''what is -5 plus 3''"
  by (simp add: toLowerCase_def lower_char_def)

text \<open>
  Claim C10, as stated, says that an input with a non-integer operand is not matched. The
  pattern is not anchored at its end: a second operand with a fractional part is matched
  on its leading digits, and the engine answers with a sum instead of the fallback.
\<close>

theorem fractional_second_operand_counterexample:
  "\<not> keyword_branch (toLowerCase ''what is 5 plus 3.5'') \<and>
   mathMatch (toLowerCase ''what is 5 plus 3.5'') = Some (''5'', ''plus'', ''3'') \<and>
   respond noon ''what is 5 plus 3.5'' = ''5 plus 3 equals 8.'' \<and>
   respond noon ''what is 5 plus 3.5'' \<noteq> fallback (toLowerCase ''what is 5 plus 3.5'')"
proof -
  have k: "\<not> keyword_branch ''what is 5 plus 3.5''"
    by (simp add: keyword_branch_def branch_keywords_def)
  have m: "mathMatch ''what is 5 plus 3.5'' = Some (''5'', ''plus'', ''3'')"
    by (simp add: match_defs)
  have c: "calculate ''plus'' (Finite 5) (Finite 3) = Finite 8"
    by (simp add: calculate_def round_double_numeral)
  have r: "respond noon ''what is 5 plus 3.5'' = ''5 plus 3 equals 8.''"
    by (simp add: respond_def lower_5 no_keyword_falls_through [OF k] m parseInt_5 parseInt_3 c
        toString_5 toString_3 toString_8 del: mathMatch.simps)
  show ?thesis
    unfolding r lower_5 using k m by (simp add: fallback_def del: mathMatch.simps)
qed

text \<open>
  Claim C10, amended. Take an input whose lower-casing is \<open>what is X OP Y\<close>, with \<open>OP\<close> one
  of the four operation words and \<open>X\<close>, \<open>Y\<close> free of spaces. The pattern matches exactly
  when \<open>X\<close> is a non-empty run of decimal digits and \<open>Y\<close> starts with a decimal digit, and
  it captures \<open>X\<close> and the leading digits of \<open>Y\<close>. So when the first operand is signed or
  not an integer, or the second operand is signed, the pattern does not match and, if no
  keyword branch applies, the engine returns the fallback echo of the lower-cased input.
\<close>

theorem pattern_operands:
  assumes "operation \<in> set operations"
    and "CHR '' '' \<notin> set x"
    and "CHR '' '' \<notin> set y"
    and "toLowerCase input = ''what is '' @ x @ '' '' @ operation @ '' '' @ y"
  shows "mathMatch (toLowerCase input) =
           (if x \<noteq> [] \<and> list_all is_digit x \<and> takeWhile is_digit y \<noteq> []
            then Some (x, operation, takeWhile is_digit y) else None) \<and>
         ((x = [] \<or> \<not> list_all is_digit x \<or> takeWhile is_digit y = []) \<and>
          \<not> keyword_branch (toLowerCase input) \<longrightarrow>
            respond now input = fallback (toLowerCase input))"
proof -
  have m: "mathMatch (toLowerCase input) =
           (if x \<noteq> [] \<and> list_all is_digit x \<and> takeWhile is_digit y \<noteq> []
            then Some (x, operation, takeWhile is_digit y) else None)"
    unfolding assms(4) using assms(1-3) by (rule mathMatch_shape)
  have "respond now input = fallback (toLowerCase input)"
    if "(x = [] \<or> \<not> list_all is_digit x \<or> takeWhile is_digit y = []) \<and>
        \<not> keyword_branch (toLowerCase input)"
  proof -
    from that m have "mathMatch (toLowerCase input) = None"
      by auto
    with that show ?thesis
      by (simp add: respond_def no_keyword_falls_through)
  qed
  with m show ?thesis
    by blast
qed

theorem pattern_operands_witness:
  "''plus'' \<in> set operations \<and> CHR '' '' \<notin> set ''-5'' \<and> CHR '' '' \<notin> set ''3'' \<and>
   toLowerCase ''what is -5 plus 3'' = ''what is '' @ ''-5'' @ '' '' @ ''plus'' @ '' '' @ ''3'' \<and>
   \<not> list_all is_digit ''-5'' \<and>
   \<not> keyword_branch (toLowerCase ''what is -5 plus 3'') \<and>
   mathMatch (toLowerCase ''what is -5 plus 3'') = None \<and>
   respond noon ''what is -5 plus 3'' = fallback ''what is -5 plus 3''"
proof -
  have o: "''plus'' \<in> set operations"
    by (simp add: operations_def)
  have x: "CHR '' '' \<notin> set ''-5''"
    by simp
  have y: "CHR '' '' \<notin> set ''3''"
    by simp
  have l: "toLowerCase ''what is -5 plus 3'' = ''what is '' @ ''-5'' @ '' '' @ ''plus'' @ '' '' @ ''3''"
    by (simp add: lower_minus5)
  have d: "\<not> list_all is_digit ''-5''"
    by (simp add: is_digit_def)
  have k: "\<not> keyword_branch (toLowerCase ''what is -5 plus 3'')"
    by (simp add: lower_minus5 keyword_branch_def branch_keywords_def)
  show ?thesis
    using o x y l d k pattern_operands [OF o x y l, of noon]
    by (simp add: lower_minus5 is_digit_def del: mathMatch.simps)
qed

end
